theory Spec2Isabelle
  imports Main "HOL-Library.Sublist"
begin

section \<open>Values of the host language\<close>

text \<open>
  The provider of \<^verbatim>\<open>src/info-providers/RiotAuthProvider.js\<close> computes with JavaScript
  numbers (time stamps, life times) and with values that are strings, \<^verbatim>\<open>null\<close> or
  \<^verbatim>\<open>undefined\<close>. Every number the code handles is a count of milliseconds or seconds, so
  a number is an integer or \<^verbatim>\<open>NaN\<close>; fractions and infinities are outside the model.
\<close>

datatype jsnum = NaN | Finite int

fun js_add :: "jsnum \<Rightarrow> jsnum \<Rightarrow> jsnum" where
  "js_add (Finite a) (Finite b) = Finite (a + b)"
| "js_add _ _ = NaN"

fun js_sub :: "jsnum \<Rightarrow> jsnum \<Rightarrow> jsnum" where
  "js_sub (Finite a) (Finite b) = Finite (a - b)"
| "js_sub _ _ = NaN"

fun js_mul :: "jsnum \<Rightarrow> jsnum \<Rightarrow> jsnum" where
  "js_mul (Finite a) (Finite b) = Finite (a * b)"
| "js_mul _ _ = NaN"

text \<open>\<^verbatim>\<open>a <= b\<close> and \<^verbatim>\<open>a > b\<close>: both are false as soon as one side is \<^verbatim>\<open>NaN\<close>.\<close>

fun js_le :: "jsnum \<Rightarrow> jsnum \<Rightarrow> bool" where
  "js_le (Finite a) (Finite b) = (a \<le> b)"
| "js_le _ _ = False"


text \<open>
  A cookie of the jar (\<^verbatim>\<open>tough.Cookie\<close>), with the fields \<^verbatim>\<open>logIn\<close> fills in;
  \<open>expires\<close> is \<^verbatim>\<open>expiryTime()\<close>, in milliseconds.
\<close>

record cookie =
  key :: string
  val :: string
  expires :: int
  domain :: string
  path :: string
  secure :: bool
  httpOnly :: bool

text \<open>
  \<open>JJar cs\<close> stands for the text \<^verbatim>\<open>JSON.stringify(jar.serializeSync())\<close> of a jar that
  holds the cookies \<open>cs\<close>; every other value is not the serialisation of a jar.
\<close>

datatype jsval = JNull | JUndefined | JStr string | JNum jsnum | JJar "cookie list"

text \<open>
  What the code throws or rejects with: \<open>Error m\<close> is \<^verbatim>\<open>new Error(m)\<close>, \<open>WindowClosed\<close>
  is the string \<^verbatim>\<open>'window closed'\<close> of \<^verbatim>\<open>showSignIn\<close>, and \<open>External m\<close> is a failure
  raised inside a collaborator (\<^verbatim>\<open>fetch\<close>, \<^verbatim>\<open>json()\<close>, \<^verbatim>\<open>deserializeSync\<close>).
\<close>

datatype error = Error string | WindowClosed | External string

text \<open>
  An asynchronous call returns, throws, or never settles (the login window stays open and
  sends no further event).
\<close>

datatype 'a completion = Unsettled | Threw error | Returned 'a

section \<open>Redirect URLs\<close>

text \<open>
  \<^verbatim>\<open>new URL\<close> and \<^verbatim>\<open>URLSearchParams\<close> belong to the platform. A URL is its text together
  with what they make of it: \<open>fragment\<close> is \<open>None\<close> when \<^verbatim>\<open>new URL(href)\<close> throws, and
  otherwise the name/value pairs, in order, of
  \<^verbatim>\<open>new URLSearchParams((new URL(href)).hash.slice(1))\<close>.
\<close>

record url =
  href :: string
  fragment :: "(string \<times> string) list option"

record tokenData =
  accessToken :: jsval
  expiresIn :: jsval

text \<open>\<^verbatim>\<open>searchParams.get(name)\<close>: the first value of that name, or \<^verbatim>\<open>null\<close>.\<close>

definition searchParams_get :: "(string \<times> string) list \<Rightarrow> string \<Rightarrow> jsval" where
  "searchParams_get ps n = (case map_of ps n of None \<Rightarrow> JNull | Some v \<Rightarrow> JStr v)"

definition quoted :: "string \<Rightarrow> string" where
  "quoted s = CHR 0x22 # s @ [CHR 0x22]"

text \<open>
  \<^verbatim>\<open>getTokenDataFromURL\<close> (lines 9-23). The argument is \<open>None\<close> for \<^verbatim>\<open>null\<close> (a response
  without \<^verbatim>\<open>Location\<close> header), on which \<^verbatim>\<open>new URL\<close> throws. The only \<^verbatim>\<open>throw\<close> is in the
  \<^verbatim>\<open>catch\<close> block; nothing looks at the two values read from the fragment.
\<close>

definition getTokenDataFromURL :: "url option \<Rightarrow> error + tokenData" where
  "getTokenDataFromURL u =
     (case u of
        None \<Rightarrow> Inl (Error (''Bad url: '' @ quoted ''null''))
      | Some l \<Rightarrow>
          (case fragment l of
             None \<Rightarrow> Inl (Error (''Bad url: '' @ quoted (href l)))
           | Some searchParams \<Rightarrow>
               Inr \<lparr>accessToken = searchParams_get searchParams ''access_token'',
                    expiresIn = searchParams_get searchParams ''expires_in''\<rparr>))"

section \<open>The interactive login window\<close>

text \<open>A cookie as Electron's session reports it; \<open>expirationDate\<close> is in seconds.\<close>

record ecookie =
  name :: string
  evalue :: string
  session :: bool
  expirationDate :: int
  edomain :: string
  epath :: string
  esecure :: bool
  ehttpOnly :: bool

datatype win_event = WillRedirect url | Close

definition callbackUrl :: string where
  "callbackUrl = ''https://playvalorant.com/opt_in''"

text \<open>
  \<^verbatim>\<open>showSignIn\<close> (lines 25-68), driven by the events the window sends, in order. The
  first argument is what \<^verbatim>\<open>session.cookies.get\<close> answers. An exception of
  \<^verbatim>\<open>getTokenDataFromURL\<close> leaves the \<^verbatim>\<open>will-redirect\<close> handler before \<^verbatim>\<open>foundToken\<close> is
  set and settles nothing. When the events end, the promise is still pending.
\<close>

fun showSignIn :: "ecookie list \<Rightarrow> bool \<Rightarrow> win_event list
    \<Rightarrow> (error + tokenData \<times> ecookie list) option" where
  "showSignIn cookies foundToken [] = None"
| "showSignIn cookies foundToken (Close # evs) = Some (Inl WindowClosed)"
| "showSignIn cookies foundToken (WillRedirect u # evs) =
     (if \<not> foundToken \<and> prefix callbackUrl (href u) then
        (case getTokenDataFromURL (Some u) of
           Inl err \<Rightarrow> showSignIn cookies foundToken evs
         | Inr tokenData \<Rightarrow> Some (Inr (tokenData, cookies)))
      else showSignIn cookies foundToken evs)"

section \<open>The cookie jar\<close>

text \<open>
  \<^verbatim>\<open>setCookieSync\<close> of the jar library: a cookie replaces the one of the same domain,
  path and key, and is filed under its domain as it is written. For
  \<^verbatim>\<open>getCookiesSync('https://auth.riotgames.com/')\<close> the library looks up the domains
  \<^verbatim>\<open>riotgames.com\<close> and \<^verbatim>\<open>auth.riotgames.com\<close>, letter for letter, and under them the
  root path; a cookie that \<^verbatim>\<open>logIn\<close> filed under a domain with a leading dot is not
  found. Cookies that have expired stay in the jar of the model, where the library drops
  them as it meets them; \<^verbatim>\<open>hasLoginCookie\<close> looks at the expiry itself.
\<close>

definition same_cookie :: "cookie \<Rightarrow> cookie \<Rightarrow> bool" where
  "same_cookie c d \<longleftrightarrow> domain c = domain d \<and> path c = path d \<and> key c = key d"

definition setCookieSync :: "cookie \<Rightarrow> cookie list \<Rightarrow> cookie list" where
  "setCookieSync c j = filter (\<lambda>d. \<not> same_cookie c d) j @ [c]"

definition authHost :: string where
  "authHost = ''auth.riotgames.com''"

definition domain_covers :: "string \<Rightarrow> bool" where
  "domain_covers d \<longleftrightarrow> d = ''riotgames.com'' \<or> d = authHost"

definition getCookiesSync :: "cookie list \<Rightarrow> cookie list" where
  "getCookiesSync j = filter (\<lambda>c. domain_covers (domain c) \<and> path c = ''/'') j"

definition deserializeSync :: "jsval \<Rightarrow> error + cookie list" where
  "deserializeSync v = (case v of JJar cs \<Rightarrow> Inr cs | _ \<Rightarrow> Inl (External ''deserializeSync''))"

section \<open>What one call meets: the environment\<close>

text \<open>
  Everything \<^verbatim>\<open>_newInvoke\<close> reads from outside the instance during one call: the store
  handle of the context, the platform's two conversions of text to a number
  (\<^verbatim>\<open>parseInt\<close> and the coercion of \<^verbatim>\<open>*\<close>), the three readings of the clock (lines 205,
  146 and 243, in milliseconds since the epoch), and the answers of the network and of the
  login window. An answer of the HTTP client carries the cookies it puts into the jar
  (\<^verbatim>\<open>fetchCookie(nodeFetch, this.jar)\<close>); a request that fails leaves the jar as it is,
  and every request settles. The two lookups are functions of the token they are given as
  bearer, and answer with the field read from the body (\<^verbatim>\<open>undefined\<close> when the body has
  no such field).
\<close>

record env =
  ctx_store :: nat
  parseInt :: "jsval \<Rightarrow> jsnum"
  toNumber :: "string \<Rightarrow> jsnum"
  clock_check :: nat
  clock_cookie :: nat
  clock_done :: nat
  silent :: "error + url option \<times> cookie list"
  window_events :: "win_event list"
  session_cookies :: "ecookie list"
  entitlement_api :: "jsval \<Rightarrow> error + jsval \<times> cookie list"
  userinfo_api :: "jsval \<Rightarrow> error + jsval \<times> cookie list"

text \<open>The coercion of the operand of \<^verbatim>\<open>tokenData.expiresIn * 1000\<close>.\<close>

definition to_number :: "env \<Rightarrow> jsval \<Rightarrow> jsnum" where
  "to_number e v =
     (case v of
        JNull \<Rightarrow> Finite 0
      | JUndefined \<Rightarrow> NaN
      | JStr s \<Rightarrow> toNumber e s
      | JNum n \<Rightarrow> n
      | JJar cs \<Rightarrow> NaN)"

section \<open>The provider\<close>

text \<open>
  The persistence handle of a context is a number; the store behind it maps keys to
  values, and \<^verbatim>\<open>getItem\<close> of a missing key is \<^verbatim>\<open>null\<close>. The operations of the store always
  succeed.
\<close>

type_synonym kv = "string \<rightharpoonup> jsval"

type_synonym disk = "nat \<Rightarrow> kv"

definition hasItem :: "kv \<Rightarrow> string \<Rightarrow> bool" where
  "hasItem m k \<longleftrightarrow> m k \<noteq> None"

definition getItem :: "kv \<Rightarrow> string \<Rightarrow> jsval" where
  "getItem m k = (case m k of None \<Rightarrow> JNull | Some v \<Rightarrow> v)"

text \<open>
  The fields of the instance (lines 72-83); \<^verbatim>\<open>this.fetch\<close> is the HTTP client bound to
  \<open>jar\<close> and has no state of its own. \<open>pending\<close> names the promise in flight.
\<close>

record provider =
  jar :: "cookie list"
  expiresAt :: jsnum
  token :: jsval
  entitlement :: jsval
  puuid :: jsval
  pending :: "nat option"
  store :: "nat option"

definition constructor :: provider where
  "constructor = \<lparr>jar = [], expiresAt = Finite 0, token = JNull, entitlement = JNull,
     puuid = JNull, pending = None, store = None\<rparr>"

text \<open>
  The effects a call has on its collaborators, in the order they happen. The
  \<^verbatim>\<open>logger.info\<close> lines are left out; \<^verbatim>\<open>logger.error\<close> is \<open>LogError\<close>.
\<close>

datatype io =
    HasItem string
  | GetItem string
  | SetItem string jsval
  | RemoveItem string
  | SilentReauth
  | InteractiveLogin
  | EntitlementLookup jsval
  | UserinfoLookup jsval
  | LogError error
  | ClearSessionCookies

definition checkStore :: "nat \<Rightarrow> provider \<Rightarrow> provider" where
  "checkStore st s = (if store s = None then s\<lparr>store := Some st\<rparr> else s)"

text \<open>
  The load of the saved record (lines 190-203). \<^verbatim>\<open>deserializeSync\<close> is the last step and
  may throw, after the four fields have been assigned.
\<close>

definition loadSaved :: "env \<Rightarrow> kv \<Rightarrow> provider \<Rightarrow> error option \<times> provider \<times> io list" where
  "loadSaved e m s =
     (if expiresAt s = Finite 0 then
        (if hasItem m ''expiresAt'' then
           (let s1 = s\<lparr>expiresAt := parseInt e (getItem m ''expiresAt''),
                       token := getItem m ''token'',
                       entitlement := getItem m ''entitlement'',
                       puuid := getItem m ''puuid''\<rparr>;
                reads = [HasItem ''expiresAt'', GetItem ''expiresAt'', GetItem ''token'',
                         GetItem ''entitlement'', GetItem ''puuid'', GetItem ''cookies'']
            in case deserializeSync (getItem m ''cookies'') of
                 Inl err \<Rightarrow> (Some err, s1, reads)
               | Inr cs \<Rightarrow> (None, s1\<lparr>jar := cs\<rparr>, reads))
         else (None, s, [HasItem ''expiresAt'']))
      else (None, s, []))"

text \<open>\<^verbatim>\<open>hasLoginCookie\<close> (lines 144-147), at the clock reading \<open>now\<close>.\<close>

definition hasLoginCookie :: "nat \<Rightarrow> provider \<Rightarrow> bool" where
  "hasLoginCookie now s \<longleftrightarrow>
     list_ex (\<lambda>c. key c = ''ssid'' \<and> expires c > int now) (getCookiesSync (jar s))"

definition toughCookie :: "ecookie \<Rightarrow> cookie" where
  "toughCookie c = \<lparr>key = name c, val = evalue c, expires = expirationDate c * 1000,
     domain = edomain c, path = epath c, secure = esecure c, httpOnly = ehttpOnly c\<rparr>"

text \<open>\<^verbatim>\<open>logIn\<close> (lines 123-142): session cookies are skipped, the others go into the jar.\<close>

definition logIn :: "env \<Rightarrow> provider \<Rightarrow> tokenData completion \<times> provider" where
  "logIn e s =
     (case showSignIn (session_cookies e) False (window_events e) of
        None \<Rightarrow> (Unsettled, s)
      | Some (Inl err) \<Rightarrow> (Threw err, s)
      | Some (Inr (tokenData, cookies)) \<Rightarrow>
          (Returned tokenData,
           s\<lparr>jar := foldl (\<lambda>j c. if session c then j else setCookieSync (toughCookie c) j)
                      (jar s) cookies\<rparr>))"

definition storeCookies :: "cookie list \<Rightarrow> provider \<Rightarrow> provider" where
  "storeCookies cs s = s\<lparr>jar := foldl (\<lambda>j c. setCookieSync c j) (jar s) cs\<rparr>"

text \<open>\<^verbatim>\<open>reauthToken\<close> (lines 149-160).\<close>

definition reauthToken :: "env \<Rightarrow> provider \<Rightarrow> (error + tokenData) \<times> provider" where
  "reauthToken e s =
     (case silent e of
        Inl err \<Rightarrow> (Inl err, s)
      | Inr (redirectUri, cs) \<Rightarrow> (getTokenDataFromURL redirectUri, storeCookies cs s))"

text \<open>\<^verbatim>\<open>getEntitlement\<close> and \<^verbatim>\<open>getPUUID\<close> (lines 162-184): the bearer is \<^verbatim>\<open>this.token\<close>.\<close>

definition getEntitlement :: "env \<Rightarrow> provider \<Rightarrow> (error + jsval) \<times> provider \<times> io list" where
  "getEntitlement e s =
     (case entitlement_api e (token s) of
        Inl err \<Rightarrow> (Inl err, s, [EntitlementLookup (token s)])
      | Inr (v, cs) \<Rightarrow> (Inr v, storeCookies cs s, [EntitlementLookup (token s)]))"

definition getPUUID :: "env \<Rightarrow> provider \<Rightarrow> (error + jsval) \<times> provider \<times> io list" where
  "getPUUID e s =
     (case userinfo_api e (token s) of
        Inl err \<Rightarrow> (Inl err, s, [UserinfoLookup (token s)])
      | Inr (v, cs) \<Rightarrow> (Inr v, storeCookies cs s, [UserinfoLookup (token s)]))"

text \<open>
  The \<^verbatim>\<open>try\<close> block of lines 211-235: the silent attempt when there is a login cookie,
  with the interactive login as its \<^verbatim>\<open>catch\<close>, and the interactive login alone otherwise.
  The outer \<^verbatim>\<open>catch\<close> logs what was thrown and throws \<^verbatim>\<open>Error('Riot login failed')\<close>.
\<close>

definition attemptToken :: "env \<Rightarrow> provider \<Rightarrow> tokenData completion \<times> provider \<times> io list" where
  "attemptToken e s =
     (if hasLoginCookie (clock_cookie e) s then
        (case reauthToken e s of
           (Inr tokenData, s1) \<Rightarrow> (Returned tokenData, s1, [SilentReauth])
         | (Inl err, s1) \<Rightarrow>
             (case logIn e s1 of (r, s2) \<Rightarrow> (r, s2, [SilentReauth, InteractiveLogin])))
      else (case logIn e s of (r, s1) \<Rightarrow> (r, s1, [InteractiveLogin])))"

definition loginFailed :: error where
  "loginFailed = Error ''Riot login failed''"

definition refreshToken :: "env \<Rightarrow> provider \<Rightarrow> tokenData completion \<times> provider \<times> io list" where
  "refreshToken e s =
     (case attemptToken e s of
        (Threw err, s1, tr) \<Rightarrow> (Threw loginFailed, s1, tr @ [LogError err])
      | (r, s1, tr) \<Rightarrow> (r, s1, tr))"

text \<open>
  The payloads an environment can give: the one of the silent answer, when its redirect
  can be parsed, and the one the login window resolves with.
\<close>

definition payloads :: "env \<Rightarrow> tokenData list" where
  "payloads e =
     (case silent e of
        Inl err \<Rightarrow> []
      | Inr (redirectUri, cs) \<Rightarrow>
          (case getTokenDataFromURL redirectUri of Inl err \<Rightarrow> [] | Inr tokenData \<Rightarrow> [tokenData]))
     @ (case showSignIn (session_cookies e) False (window_events e) of
          Some (Inr (tokenData, cookies)) \<Rightarrow> [tokenData]
        | _ \<Rightarrow> [])"

text \<open>Line 243: the clock is read again, after the lookups.\<close>

definition newExpiresAt :: "env \<Rightarrow> tokenData \<Rightarrow> jsnum" where
  "newExpiresAt e tokenData =
     js_sub (js_add (Finite (int (clock_done e)))
                    (js_mul (to_number e (expiresIn tokenData)) (Finite 1000)))
            (Finite (5 * 60 * 1000))"

text \<open>Lines 245-251: the five writes, in the order the calls are made.\<close>

definition persist :: "provider \<Rightarrow> kv \<Rightarrow> kv \<times> io list" where
  "persist s m =
     (m(''expiresAt'' \<mapsto> JNum (expiresAt s), ''cookies'' \<mapsto> JJar (jar s),
        ''token'' \<mapsto> token s, ''entitlement'' \<mapsto> entitlement s, ''puuid'' \<mapsto> puuid s),
      [SetItem ''expiresAt'' (JNum (expiresAt s)), SetItem ''cookies'' (JJar (jar s)),
       SetItem ''token'' (token s), SetItem ''entitlement'' (entitlement s),
       SetItem ''puuid'' (puuid s)])"

record snapshot =
  s_entitlement :: jsval
  s_token :: jsval
  s_puuid :: jsval

definition snapshot_of :: "provider \<Rightarrow> snapshot" where
  "snapshot_of s = \<lparr>s_entitlement = entitlement s, s_token = token s, s_puuid = puuid s\<rparr>"

text \<open>
  The body of \<^verbatim>\<open>if(this.expiresAt <= currentTime)\<close> (lines 209-251). A throw leaves
  the fields as they are at that point.
\<close>

definition renew :: "env \<Rightarrow> provider \<times> disk \<Rightarrow> unit completion \<times> provider \<times> disk \<times> io list" where
  "renew e = (\<lambda>(s, d).
     (case refreshToken e s of
        (Unsettled, s1, tr1) \<Rightarrow> (Unsettled, s1, d, tr1)
      | (Threw err, s1, tr1) \<Rightarrow> (Threw err, s1, d, tr1)
      | (Returned tokenData, s1, tr1) \<Rightarrow>
          (let s2 = s1\<lparr>token := accessToken tokenData\<rparr> in
           case getEntitlement e s2 of
             (Inl err, s3, tr2) \<Rightarrow> (Threw err, s3, d, tr1 @ tr2)
           | (Inr ent, s3, tr2) \<Rightarrow>
               (let s4 = s3\<lparr>entitlement := ent\<rparr> in
                case getPUUID e s4 of
                  (Inl err, s5, tr3) \<Rightarrow> (Threw err, s5, d, tr1 @ tr2 @ tr3)
                | (Inr sub, s5, tr3) \<Rightarrow>
                    (let s6 = s5\<lparr>puuid := sub\<rparr>;
                         s7 = s6\<lparr>expiresAt := newExpiresAt e tokenData\<rparr>;
                         (m, tr4) = persist s7 (d (ctx_store e))
                     in (Returned (), s7, d(ctx_store e := m), tr1 @ tr2 @ tr3 @ tr4))))))"

text \<open>\<^verbatim>\<open>_newInvoke\<close> (lines 186-259).\<close>

definition newInvoke :: "env \<Rightarrow> provider \<times> disk
    \<Rightarrow> snapshot completion \<times> provider \<times> disk \<times> io list" where
  "newInvoke e = (\<lambda>(s0, d).
     (let s = checkStore (ctx_store e) s0 in
      case loadSaved e (d (ctx_store e)) s of
        (Some err, s1, tr1) \<Rightarrow> (Threw err, s1, d, tr1)
      | (None, s1, tr1) \<Rightarrow>
          (if js_le (expiresAt s1) (Finite (int (clock_check e))) then
             (case renew e (s1, d) of
                (Unsettled, s2, d2, tr2) \<Rightarrow> (Unsettled, s2, d2, tr1 @ tr2)
              | (Threw err, s2, d2, tr2) \<Rightarrow> (Threw err, s2, d2, tr1 @ tr2)
              | (Returned u, s2, d2, tr2) \<Rightarrow> (Returned (snapshot_of s2), s2, d2, tr1 @ tr2))
           else (Returned (snapshot_of s1), s1, d, tr1))))"

text \<open>
  \<^verbatim>\<open>clearAccount\<close> (lines 93-121). The cookies of the browser session are outside the
  instance; their removal is an effect only.
\<close>

definition clearAccount :: "provider \<times> disk \<Rightarrow> provider \<times> disk \<times> io list" where
  "clearAccount = (\<lambda>(s, d).
     (let (d1, tr) =
            (case store s of
               None \<Rightarrow> (d, [])
             | Some h \<Rightarrow>
                 (d(h := (d h)(''expiresAt'' := None, ''token'' := None,
                              ''entitlement'' := None, ''puuid'' := None, ''cookies'' := None)),
                  [RemoveItem ''expiresAt'', RemoveItem ''token'', RemoveItem ''entitlement'',
                   RemoveItem ''puuid'', RemoveItem ''cookies'']))
      in (s\<lparr>jar := [], expiresAt := Finite 0, token := JNull, entitlement := JNull,
            puuid := JNull\<rparr>,
          d1, ClearSessionCookies # tr)))"

text \<open>
  The instance after a renewal that went through: the token of the payload, the two
  answers, the cookies the two exchanges left in the jar, and the new expiry.
\<close>

definition renewed :: "env \<Rightarrow> tokenData \<Rightarrow> jsval \<Rightarrow> cookie list \<Rightarrow> jsval \<Rightarrow> cookie list
    \<Rightarrow> provider \<Rightarrow> provider" where
  "renewed e td ent cs sub cs' s1 =
     (storeCookies cs' ((storeCookies cs (s1\<lparr>token := accessToken td\<rparr>))\<lparr>entitlement := ent\<rparr>))
       \<lparr>puuid := sub, expiresAt := newExpiresAt e td\<rparr>"

text \<open>
  A call renews when the load did not throw and the expiry, as it is after the load, is not
  after the clock reading of line 205. \<open>before_renewal\<close> is the instance at that point.
\<close>

definition before_renewal :: "env \<Rightarrow> provider \<times> disk \<Rightarrow> provider" where
  "before_renewal e = (\<lambda>(s, d).
     fst (snd (loadSaved e (d (ctx_store e)) (checkStore (ctx_store e) s))))"

definition renewal_due :: "env \<Rightarrow> provider \<times> disk \<Rightarrow> bool" where
  "renewal_due e = (\<lambda>(s, d).
     fst (loadSaved e (d (ctx_store e)) (checkStore (ctx_store e) s)) = None
     \<and> js_le (expiresAt (before_renewal e (s, d))) (Finite (int (clock_check e))))"

section \<open>Sequences of operations\<close>


text \<open>
  Calls of \<^verbatim>\<open>invoke\<close> one after the other, each awaited before the next is made: the
  state and the effects after each call. A call that never settles leaves \<open>pending\<close> set
  for good, and no later call starts \<^verbatim>\<open>_newInvoke\<close> again.
\<close>

fun invocations :: "env list \<Rightarrow> provider \<times> disk \<Rightarrow> (provider \<times> io list) list" where
  "invocations [] w = []"
| "invocations (e # es) w =
     (case newInvoke e w of
        (Unsettled, s, d, tr) \<Rightarrow> [(s, tr)]
      | (c, s, d, tr) \<Rightarrow> (s, tr) # invocations es (s, d))"

text \<open>The calls of a sequence that read the saved record.\<close>

definition loads :: "(provider \<times> io list) list \<Rightarrow> nat" where
  "loads rs = length (filter (\<lambda>(s, tr). GetItem ''expiresAt'' \<in> set tr) rs)"


section \<open>Callers that overlap\<close>

text \<open>
  \<^verbatim>\<open>invoke\<close> (lines 261-279) runs up to its \<^verbatim>\<open>await\<close>, and goes on when the promise it
  awaits has settled. Between the two, other callers may enter. The system holds the
  instance, the stores, every promise \<^verbatim>\<open>_newInvoke\<close> has returned (in flight with the
  context it was called with, or settled), the callers suspended at the \<^verbatim>\<open>await\<close> with
  the promise each awaits, what each caller has got back, and the effects so far.
\<close>

datatype flight = InFlight env | Settled "snapshot completion"

record sys =
  inst :: provider
  files :: disk
  promises :: "flight list"
  waiting :: "(nat \<times> nat) list"
  received :: "(nat \<times> snapshot completion) list"
  effects :: "io list"

text \<open>Lines 263-269: caller \<open>c\<close> enters and suspends.\<close>

definition invoke_call :: "nat \<Rightarrow> env \<Rightarrow> sys \<Rightarrow> sys" where
  "invoke_call c context w =
     (case pending (inst w) of
        None \<Rightarrow>
          w\<lparr>inst := (inst w)\<lparr>pending := Some (length (promises w))\<rparr>,
            promises := promises w @ [InFlight context],
            waiting := waiting w @ [(c, length (promises w))]\<rparr>
      | Some p \<Rightarrow> w\<lparr>waiting := waiting w @ [(c, p)]\<rparr>)"

text \<open>
  The promise \<open>p\<close> settles: its \<^verbatim>\<open>_newInvoke\<close> has run to the end. The callers that entered
  meanwhile touched no field but \<open>pending\<close>, which \<^verbatim>\<open>_newInvoke\<close> neither reads nor
  writes, so its run is the run of \<open>newInvoke\<close> on the instance as it is now.
\<close>

definition settle :: "nat \<Rightarrow> sys \<Rightarrow> sys option" where
  "settle p w =
     (if p < length (promises w) then
        (case promises w ! p of
           Settled r \<Rightarrow> None
         | InFlight context \<Rightarrow>
             (case newInvoke context (inst w, files w) of
                (Unsettled, s, d, tr) \<Rightarrow> None
              | (r, s, d, tr) \<Rightarrow>
                  Some (w\<lparr>inst := s, files := d, promises := (promises w)[p := Settled r],
                          effects := effects w @ tr\<rparr>)))
      else None)"

text \<open>
  Lines 269-278: caller \<open>c\<close> goes on with the outcome of the promise it awaited; the
  \<^verbatim>\<open>catch\<close> throws the same error again, and \<^verbatim>\<open>finally\<close> clears \<open>pending\<close>.
\<close>

definition resume :: "nat \<Rightarrow> sys \<Rightarrow> sys option" where
  "resume c w =
     (case map_of (waiting w) c of
        None \<Rightarrow> None
      | Some p \<Rightarrow>
          (if p < length (promises w) then
             (case promises w ! p of
                InFlight context \<Rightarrow> None
              | Settled r \<Rightarrow>
                  Some (w\<lparr>inst := (inst w)\<lparr>pending := None\<rparr>,
                          waiting := filter (\<lambda>x. fst x \<noteq> c) (waiting w),
                          received := received w @ [(c, r)]\<rparr>))
           else None))"

fun calls :: "(nat \<times> env) list \<Rightarrow> sys \<Rightarrow> sys" where
  "calls [] w = w"
| "calls ((c, context) # ces) w = calls ces (invoke_call c context w)"

fun resumes :: "nat list \<Rightarrow> sys \<Rightarrow> sys option" where
  "resumes [] w = Some w"
| "resumes (c # cs) w = (case resume c w of None \<Rightarrow> None | Some w' \<Rightarrow> resumes cs w')"

text \<open>A schedule is the list of these events, in the order they happen.\<close>

datatype event = Call nat env | Settle nat | Resume nat

fun step :: "event \<Rightarrow> sys \<Rightarrow> sys option" where
  "step (Call c context) w = Some (invoke_call c context w)"
| "step (Settle p) w = settle p w"
| "step (Resume c) w = resume c w"

fun run :: "event list \<Rightarrow> sys \<Rightarrow> sys option" where
  "run [] w = Some w"
| "run (ev # evs) w = (case step ev w of None \<Rightarrow> None | Some w' \<Rightarrow> run evs w')"

definition entering :: "(nat \<times> env) list \<Rightarrow> event list" where
  "entering ces = map (\<lambda>(c, context). Call c context) ces"

fun is_entitlement_lookup :: "io \<Rightarrow> bool" where
  "is_entitlement_lookup (EntitlementLookup t) = True"
| "is_entitlement_lookup _ = False"

fun is_userinfo_lookup :: "io \<Rightarrow> bool" where
  "is_userinfo_lookup (UserinfoLookup t) = True"
| "is_userinfo_lookup _ = False"

section \<open>Example data\<close>

text \<open>A reading of decimal digits, for the conversions of the example environments.\<close>

fun digit_of :: "char \<Rightarrow> int option" where
  "digit_of c = (if c \<in> set ''0123456789'' then Some (of_char c - 48) else None)"

fun digits_val :: "int \<Rightarrow> string \<Rightarrow> int" where
  "digits_val acc [] = acc"
| "digits_val acc (c # cs) =
     (case digit_of c of None \<Rightarrow> acc | Some v \<Rightarrow> digits_val (acc * 10 + v) cs)"

definition decimal :: "string \<Rightarrow> jsnum" where
  "decimal s =
     (case s of
        [] \<Rightarrow> NaN
      | c # cs \<Rightarrow> (case digit_of c of None \<Rightarrow> NaN | Some v \<Rightarrow> Finite (digits_val 0 s)))"

definition parseInt_dec :: "jsval \<Rightarrow> jsnum" where
  "parseInt_dec v = (case v of JStr s \<Rightarrow> decimal s | JNum n \<Rightarrow> n | _ \<Rightarrow> NaN)"

definition callback :: "string \<Rightarrow> string \<Rightarrow> url" where
  "callback t ex =
     \<lparr>href = ''https://playvalorant.com/opt_in#access_token='' @ t @ ''&expires_in='' @ ex,
      fragment = Some [(''access_token'', t), (''expires_in'', ex)]\<rparr>"

definition callback_bare :: url where
  "callback_bare =
     \<lparr>href = ''https://playvalorant.com/opt_in#foo=bar'', fragment = Some [(''foo'', ''bar'')]\<rparr>"

definition ent_of :: "jsval \<Rightarrow> error + jsval \<times> cookie list" where
  "ent_of t = (case t of JStr x \<Rightarrow> Inr (JStr (''ent-'' @ x), []) | _ \<Rightarrow> Inl (External ''401''))"

definition sub_of :: "jsval \<Rightarrow> error + jsval \<times> cookie list" where
  "sub_of t = (case t of JStr x \<Rightarrow> Inr (JStr (''sub-'' @ x), []) | _ \<Rightarrow> Inl (External ''401''))"

definition ssid :: "int \<Rightarrow> cookie" where
  "ssid ex = \<lparr>key = ''ssid'', val = ''s1'', expires = ex, domain = ''auth.riotgames.com'',
     path = ''/'', secure = True, httpOnly = True\<rparr>"

text \<open>
  A first call at 1700000000000 ms: the store of the context is handle 0, the silent
  request is refused, the login window reaches the callback with a token \<open>t\<close> that lasts
  3600 s, and the lookups are done 9 s after the call began.
\<close>

definition env_login :: "string \<Rightarrow> env" where
  "env_login t =
     \<lparr>ctx_store = 0, parseInt = parseInt_dec, toNumber = decimal,
      clock_check = 1700000000000, clock_cookie = 1700000000001, clock_done = 1700000009000,
      silent = Inl (External ''offline''),
      window_events = [WillRedirect (callback t ''3600'')],
      session_cookies = [],
      entitlement_api = ent_of, userinfo_api = sub_of\<rparr>"

definition no_files :: disk where
  "no_files = (\<lambda>h. Map.empty)"

definition idle :: sys where
  "idle = \<lparr>inst = constructor, files = no_files, promises = [], waiting = [], received = [],
     effects = []\<rparr>"

text \<open>The instance and the store after that first call with token \<open>tok1\<close>.\<close>

definition signed_in :: provider where
  "signed_in = \<lparr>jar = [], expiresAt = Finite 1700003309000, token = JStr ''tok1'',
     entitlement = JStr ''ent-tok1'', puuid = JStr ''sub-tok1'', pending = None,
     store = Some 0\<rparr>"

definition saved :: disk where
  "saved = no_files(0 := [''expiresAt'' \<mapsto> JNum (Finite 1700003309000), ''cookies'' \<mapsto> JJar [],
     ''token'' \<mapsto> JStr ''tok1'', ''entitlement'' \<mapsto> JStr ''ent-tok1'',
     ''puuid'' \<mapsto> JStr ''sub-tok1''])"

text \<open>
  A later call, after that token has expired: the login window yields \<open>tok2\<close>, and the
  entitlement request times out.
\<close>

definition env_lookup_down :: env where
  "env_lookup_down =
     \<lparr>ctx_store = 0, parseInt = parseInt_dec, toNumber = decimal,
      clock_check = 1700003400000, clock_cookie = 1700003400001, clock_done = 1700003409000,
      silent = Inl (External ''offline''),
      window_events = [WillRedirect (callback ''tok2'' ''3600'')],
      session_cookies = [],
      entitlement_api = (\<lambda>t. Inl (External ''timeout'')), userinfo_api = sub_of\<rparr>"

text \<open>A call in which the user closes the login window.\<close>

definition env_closed :: env where
  "env_closed =
     \<lparr>ctx_store = 0, parseInt = parseInt_dec, toNumber = decimal,
      clock_check = 1700000000000, clock_cookie = 1700000000001, clock_done = 1700000009000,
      silent = Inl (External ''offline''),
      window_events = [Close],
      session_cookies = [],
      entitlement_api = ent_of, userinfo_api = sub_of\<rparr>"

text \<open>A saved record whose expiry reads as the number 0, and one whose expiry is no number.\<close>

definition zero_record :: disk where
  "zero_record = no_files(0 := [''expiresAt'' \<mapsto> JStr ''0'', ''cookies'' \<mapsto> JJar [],
     ''token'' \<mapsto> JStr ''tok0'', ''entitlement'' \<mapsto> JStr ''ent-tok0'',
     ''puuid'' \<mapsto> JStr ''sub-tok0''])"

definition nan_record :: disk where
  "nan_record = no_files(0 := [''expiresAt'' \<mapsto> JStr ''NaN'', ''cookies'' \<mapsto> JJar [],
     ''token'' \<mapsto> JStr ''tok0'', ''entitlement'' \<mapsto> JStr ''ent-tok0'',
     ''puuid'' \<mapsto> JStr ''sub-tok0''])"

text \<open>The instance after that later call: the new token beside the old entitlement.\<close>

definition half_renewed :: provider where
  "half_renewed = signed_in\<lparr>token := JStr ''tok2''\<rparr>"

text \<open>The signed-in instance with a login cookie that is still good in the year 2027.\<close>

definition with_cookie :: provider where
  "with_cookie = signed_in\<lparr>jar := [ssid 1800000000000]\<rparr>"

text \<open>
  A call of the instance with the login cookie, after the token has expired, in which the
  silent request is answered with a redirect to the login page: a URL that can be parsed
  and has no fragment. The lookups, asked with no token, answer with bodies that lack the
  field.
\<close>

definition login_page :: url where
  "login_page = \<lparr>href = ''https://auth.riotgames.com/login'', fragment = Some []\<rparr>"

definition env_no_token :: env where
  "env_no_token =
     \<lparr>ctx_store = 0, parseInt = parseInt_dec, toNumber = decimal,
      clock_check = 1700003400000, clock_cookie = 1700003400001, clock_done = 1700003409000,
      silent = Inr (Some login_page, []),
      window_events = [WillRedirect (callback ''tok2'' ''3600'')],
      session_cookies = [],
      entitlement_api = (\<lambda>t. Inr (JUndefined, [])),
      userinfo_api = (\<lambda>t. Inr (JUndefined, []))\<rparr>"

text \<open>
  A call five minutes after the epoch whose login yields a token that lasts 0 s: the new
  expiry is the number 0.
\<close>

definition env_epoch :: env where
  "env_epoch =
     \<lparr>ctx_store = 0, parseInt = parseInt_dec, toNumber = decimal,
      clock_check = 200000, clock_cookie = 200001, clock_done = 300000,
      silent = Inl (External ''offline''),
      window_events = [WillRedirect (callback ''tok1'' ''0'')],
      session_cookies = [],
      entitlement_api = ent_of, userinfo_api = sub_of\<rparr>"

text \<open>The instance and the store after such a call.\<close>

definition epoch_state :: provider where
  "epoch_state = \<lparr>jar = [], expiresAt = Finite 0, token = JStr ''tok1'',
     entitlement = JStr ''ent-tok1'', puuid = JStr ''sub-tok1'', pending = None,
     store = Some 0\<rparr>"

definition epoch_record :: disk where
  "epoch_record = no_files(0 := [''expiresAt'' \<mapsto> JNum (Finite 0), ''cookies'' \<mapsto> JJar [],
     ''token'' \<mapsto> JStr ''tok1'', ''entitlement'' \<mapsto> JStr ''ent-tok1'',
     ''puuid'' \<mapsto> JStr ''sub-tok1''])"

section \<open>Proofs\<close>

lemmas code_defs = newInvoke_def checkStore_def loadSaved_def hasItem_def getItem_def
  renew_def refreshToken_def attemptToken_def hasLoginCookie_def getCookiesSync_def
  logIn_def reauthToken_def getTokenDataFromURL_def searchParams_get_def callbackUrl_def
  getEntitlement_def getPUUID_def storeCookies_def newExpiresAt_def to_number_def persist_def
  snapshot_of_def deserializeSync_def setCookieSync_def toughCookie_def domain_covers_def authHost_def
  same_cookie_def loginFailed_def

subsection \<open>Fields that a step leaves alone\<close>

lemma storeCookies_fields [simp]:
  "expiresAt (storeCookies cs s) = expiresAt s" "token (storeCookies cs s) = token s"
  "entitlement (storeCookies cs s) = entitlement s" "puuid (storeCookies cs s) = puuid s"
  "pending (storeCookies cs s) = pending s" "store (storeCookies cs s) = store s"
  by (simp_all add: storeCookies_def)

lemma logIn_fields:
  assumes "logIn e s = (r, s1)"
  shows "expiresAt s1 = expiresAt s \<and> token s1 = token s \<and> entitlement s1 = entitlement s
       \<and> puuid s1 = puuid s \<and> pending s1 = pending s \<and> store s1 = store s"
  using assms by (auto simp: logIn_def split: option.splits sum.splits prod.splits)

lemma reauthToken_fields:
  assumes "reauthToken e s = (r, s1)"
  shows "expiresAt s1 = expiresAt s \<and> token s1 = token s \<and> entitlement s1 = entitlement s
       \<and> puuid s1 = puuid s \<and> pending s1 = pending s \<and> store s1 = store s"
  using assms by (auto simp: reauthToken_def split: sum.splits prod.splits)

lemma attemptToken_fields:
  assumes "attemptToken e s = (r, s1, tr)"
  shows "expiresAt s1 = expiresAt s \<and> token s1 = token s \<and> entitlement s1 = entitlement s
       \<and> puuid s1 = puuid s \<and> pending s1 = pending s \<and> store s1 = store s"
  using assms
  by (auto simp: attemptToken_def split: if_splits sum.splits prod.splits
      dest!: logIn_fields reauthToken_fields)

lemma attemptToken_trace:
  assumes "attemptToken e s = (r, s1, tr)"
  shows "tr = (if hasLoginCookie (clock_cookie e) s
               then (case fst (reauthToken e s) of Inl err \<Rightarrow> [SilentReauth, InteractiveLogin]
                     | Inr td \<Rightarrow> [SilentReauth])
               else [InteractiveLogin])"
  using assms by (auto simp: attemptToken_def split: if_splits sum.splits prod.splits)

lemma refreshToken_cases:
  "refreshToken e s =
     (case attemptToken e s of (r, s1, tr) \<Rightarrow>
        (case r of Threw err \<Rightarrow> (Threw loginFailed, s1, tr @ [LogError err]) | _ \<Rightarrow> (r, s1, tr)))"
  by (auto simp: refreshToken_def split: prod.splits completion.splits)

lemma renew_unfold:
  "renew e (s, d) =
     (case attemptToken e s of
        (Unsettled, s1, tr1) \<Rightarrow> (Unsettled, s1, d, tr1)
      | (Threw cause, s1, tr1) \<Rightarrow> (Threw loginFailed, s1, d, tr1 @ [LogError cause])
      | (Returned td, s1, tr1) \<Rightarrow>
          (case entitlement_api e (accessToken td) of
             Inl err \<Rightarrow> (Threw err, s1\<lparr>token := accessToken td\<rparr>, d,
                          tr1 @ [EntitlementLookup (accessToken td)])
           | Inr (ent, cs) \<Rightarrow>
               (case userinfo_api e (accessToken td) of
                  Inl err \<Rightarrow>
                    (Threw err, (storeCookies cs (s1\<lparr>token := accessToken td\<rparr>))\<lparr>entitlement := ent\<rparr>,
                     d, tr1 @ [EntitlementLookup (accessToken td), UserinfoLookup (accessToken td)])
                | Inr (sub, cs') \<Rightarrow>
                    (Returned (), renewed e td ent cs sub cs' s1,
                     d(ctx_store e := fst (persist (renewed e td ent cs sub cs' s1) (d (ctx_store e)))),
                     tr1 @ [EntitlementLookup (accessToken td), UserinfoLookup (accessToken td)]
                       @ snd (persist (renewed e td ent cs sub cs' s1) (d (ctx_store e)))))))"
  by (simp add: renew_def refreshToken_cases getEntitlement_def getPUUID_def renewed_def Let_def
        split: prod.splits completion.splits sum.splits)

lemma newInvoke_due:
  assumes "renewal_due e (s, d)"
  shows "newInvoke e (s, d) =
     (case renew e (before_renewal e (s, d), d) of
        (c, s2, d2, tr2) \<Rightarrow>
          ((case c of Unsettled \<Rightarrow> Unsettled | Threw err \<Rightarrow> Threw err
            | Returned u \<Rightarrow> Returned (snapshot_of s2)),
           s2, d2, snd (snd (loadSaved e (d (ctx_store e)) (checkStore (ctx_store e) s))) @ tr2))"
  using assms
  by (auto simp: newInvoke_def renewal_due_def before_renewal_def Let_def
      split: prod.splits option.splits completion.splits)

lemma loadSaved_trace:
  "snd (snd (loadSaved e m s)) =
     (if expiresAt s = Finite 0 then
        (if hasItem m ''expiresAt'' then
           [HasItem ''expiresAt'', GetItem ''expiresAt'', GetItem ''token'',
            GetItem ''entitlement'', GetItem ''puuid'', GetItem ''cookies'']
         else [HasItem ''expiresAt''])
      else [])"
  by (simp add: loadSaved_def Let_def split: sum.splits)

lemma persist_no_errors: "LogError c \<notin> set (snd (persist s m))"
  by (simp add: persist_def)

lemma renew_disk_on_failure:
  assumes "renew e (s, d) = (c, s', d', tr)" "c \<noteq> Returned ()"
  shows "d' = d \<and> (\<forall>k v. SetItem k v \<notin> set tr) \<and> expiresAt s' = expiresAt s \<and> puuid s' = puuid s"
proof -
  obtain r s1 tr1 where a: "attemptToken e s = (r, s1, tr1)"
    by (metis prod_cases3)
  from attemptToken_trace[OF a] have t: "\<forall>k v. SetItem k v \<notin> set tr1"
    by (auto split: if_splits sum.splits)
  from attemptToken_fields[OF a] t assms a show ?thesis
    by (auto simp: renew_unfold split: completion.splits sum.splits prod.splits)
qed



text \<open>
  Claim C2, as amended. When a call renews and the renewal fails, the store is left as it
  was (nothing is written), and so are \<open>expiresAt\<close> and \<open>puuid\<close>. When the failure is in
  the token acquisition, \<open>token\<close> and \<open>entitlement\<close> are unchanged as well. When a lookup
  fails, \<open>token\<close> already holds the new access token, and \<open>entitlement\<close> the new
  entitlement if it was the user lookup that failed.
\<close>

theorem failed_renewal_keeps_expiry_and_store:
  assumes "renewal_due e (s, d)" and "newInvoke e (s, d) = (Threw err, s', d', tr)"
  shows "d' = d \<and> (\<forall>k v. SetItem k v \<notin> set tr)
       \<and> expiresAt s' = expiresAt (before_renewal e (s, d))
       \<and> puuid s' = puuid (before_renewal e (s, d))
       \<and> (case attemptToken e (before_renewal e (s, d)) of
            (Returned td, s1, tr1) \<Rightarrow>
              token s' = accessToken td
              \<and> (case entitlement_api e (accessToken td) of
                    Inl x \<Rightarrow> entitlement s' = entitlement (before_renewal e (s, d))
                  | Inr (ent, cs) \<Rightarrow> entitlement s' = ent)
          | (c, s1, tr1) \<Rightarrow>
              token s' = token (before_renewal e (s, d))
              \<and> entitlement s' = entitlement (before_renewal e (s, d)))"
proof -
  let ?b = "before_renewal e (s, d)"
  obtain c s2 d2 tr2 where r: "renew e (?b, d) = (c, s2, d2, tr2)"
    by (metis prod_cases4)
  from assms r have c: "c = Threw err" and s2: "s2 = s'" and d2: "d2 = d'"
    and tr: "tr = snd (snd (loadSaved e (d (ctx_store e)) (checkStore (ctx_store e) s))) @ tr2"
    by (auto simp: newInvoke_due split: completion.splits)
  from renew_disk_on_failure[OF r] c s2 d2
  have 1: "d' = d" "\<forall>k v. SetItem k v \<notin> set tr2" "expiresAt s' = expiresAt ?b" "puuid s' = puuid ?b"
    by auto
  have 2: "\<forall>k v. SetItem k v \<notin> set (snd (snd (loadSaved e (d (ctx_store e)) (checkStore (ctx_store e) s))))"
    by (simp add: loadSaved_trace)
  obtain r0 s1 tr1 where a: "attemptToken e ?b = (r0, s1, tr1)"
    by (metis prod_cases3)
  from attemptToken_fields[OF a] r c s2 a
  have 3: "(case attemptToken e ?b of
            (Returned td, s1, tr1) \<Rightarrow>
              token s' = accessToken td
              \<and> (case entitlement_api e (accessToken td) of
                    Inl x \<Rightarrow> entitlement s' = entitlement ?b
                  | Inr (ent, cs) \<Rightarrow> entitlement s' = ent)
          | (c, s1, tr1) \<Rightarrow> token s' = token ?b \<and> entitlement s' = entitlement ?b)"
    by (auto simp: renew_unfold split: completion.splits sum.splits prod.splits)
  from 1 2 3 tr show ?thesis by auto
qed

lemma attemptToken_no_errors:
  assumes "attemptToken e s = (r, s1, tr)"
  shows "LogError c \<notin> set tr"
  using attemptToken_trace[OF assms] by (auto split: if_splits sum.splits)

lemma loadSaved_no_errors: "LogError c \<notin> set (snd (snd (loadSaved e m s)))"
  by (simp add: loadSaved_trace)

text \<open>
  Claim C3, as amended. When a call renews and throws, then either the token acquisition
  failed, the error is \<^verbatim>\<open>Error('Riot login failed')\<close> and the cause has been logged, or the
  token was obtained, the error is the one a lookup (\<^verbatim>\<open>getEntitlement\<close> or \<^verbatim>\<open>getPUUID\<close>)
  failed with, passed on as it is, and nothing has been logged.
\<close>

theorem renewal_error_is_login_failure_or_lookup_error:
  assumes "renewal_due e (s, d)" and "newInvoke e (s, d) = (Threw err, s', d', tr)"
  shows "(\<exists>cause s1 tr1. attemptToken e (before_renewal e (s, d)) = (Threw cause, s1, tr1)
            \<and> err = loginFailed \<and> LogError cause \<in> set tr)
       \<or> (\<exists>td s1 tr1. attemptToken e (before_renewal e (s, d)) = (Returned td, s1, tr1)
            \<and> (entitlement_api e (accessToken td) = Inl err
               \<or> userinfo_api e (accessToken td) = Inl err)
            \<and> (\<forall>c. LogError c \<notin> set tr))"
proof -
  let ?b = "before_renewal e (s, d)"
  let ?tr0 = "snd (snd (loadSaved e (d (ctx_store e)) (checkStore (ctx_store e) s)))"
  obtain c s2 d2 tr2 where r: "renew e (?b, d) = (c, s2, d2, tr2)"
    by (metis prod_cases4)
  from assms r have c: "c = Threw err" and tr: "tr = ?tr0 @ tr2"
    by (auto simp: newInvoke_due split: completion.splits)
  obtain r0 s1 tr1 where a: "attemptToken e ?b = (r0, s1, tr1)"
    by (metis prod_cases3)
  note n = attemptToken_no_errors[OF a] loadSaved_no_errors[of _ e "d (ctx_store e)" "checkStore (ctx_store e) s"]
  show ?thesis
  proof (cases r0)
    case Unsettled
    with r c a show ?thesis by (simp add: renew_unfold)
  next
    case (Threw cause)
    with r c a tr show ?thesis by (auto simp: renew_unfold)
  next
    case (Returned td)
    with r c a tr n show ?thesis
      by (auto simp: renew_unfold split: sum.splits prod.splits)
  qed
qed

text \<open>
  Claim C5, as amended. After a renewal that went through with a payload whose
  \<^verbatim>\<open>expiresIn\<close> is the number \<open>E\<close>, the new \<open>expiresAt\<close>, in the instance and in the store,
  is the clock reading of line 243, taken after the two lookups, plus \<open>E * 1000\<close> minus
  \<open>300000\<close>.
\<close>

theorem renewal_expiry_from_clock_after_lookups:
  assumes "renewal_due e (s, d)"
    and "newInvoke e (s, d) = (Returned r, s', d', tr)"
    and "attemptToken e (before_renewal e (s, d)) = (Returned td, s1, tr1)"
    and "to_number e (expiresIn td) = Finite E"
  shows "expiresAt s' = Finite (int (clock_done e) + E * 1000 - 300000)
       \<and> d' (ctx_store e) ''expiresAt'' = Some (JNum (Finite (int (clock_done e) + E * 1000 - 300000)))"
proof -
  let ?b = "before_renewal e (s, d)"
  obtain c s2 d2 tr2 where r: "renew e (?b, d) = (c, s2, d2, tr2)"
    by (metis prod_cases4)
  from assms(1,2) r have c: "c = Returned ()" and s2: "s2 = s'" and d2: "d2 = d'"
    by (auto simp: newInvoke_due split: completion.splits)
  from r c s2 d2 assms(3,4) show ?thesis
    by (auto simp: renew_unfold renewed_def newExpiresAt_def persist_def storeCookies_def
        split: sum.splits prod.splits)
qed

lemma loadSaved_store: "store (fst (snd (loadSaved e m s))) = store s"
  by (simp add: loadSaved_def Let_def split: sum.splits)

lemma renew_store:
  assumes "renew e (s, d) = (c, s', d', tr)"
  shows "store s' = store s \<and> pending s' = pending s"
proof -
  obtain r0 s1 tr1 where a: "attemptToken e s = (r0, s1, tr1)"
    by (metis prod_cases3)
  from attemptToken_fields[OF a] assms a show ?thesis
    by (auto simp: renew_unfold renewed_def split: completion.splits sum.splits prod.splits)
qed

lemma newInvoke_store:
  assumes "newInvoke e (s, d) = (c, s', d', tr)"
  shows "store s' \<noteq> None"
proof -
  let ?s = "checkStore (ctx_store e) s"
  have 0: "store ?s \<noteq> None" by (simp add: checkStore_def)
  obtain le s1 tr1 where l: "loadSaved e (d (ctx_store e)) ?s = (le, s1, tr1)"
    by (metis prod_cases3)
  with loadSaved_store[of e "d (ctx_store e)" ?s] 0 have 1: "store s1 \<noteq> None" by simp
  obtain c2 s2 d2 tr2 where r: "renew e (s1, d) = (c2, s2, d2, tr2)"
    by (metis prod_cases4)
  from renew_store[OF r] 1 have "store s2 \<noteq> None" by simp
  with assms l r 1 show ?thesis
    by (auto simp: newInvoke_def Let_def split: option.splits if_splits completion.splits)
qed




text \<open>
  Claim C10. If the instance has never been loaded and the saved \<^verbatim>\<open>expiresAt\<close> reads as
  \<^verbatim>\<open>NaN\<close>, the call loads the record and does nothing else (no renewal, no write); it
  returns the loaded fields when the saved jar can be read back. From then on every call,
  at any time and whatever the store holds, returns those fields and touches nothing, until
  \<^verbatim>\<open>clearAccount\<close> sets \<open>expiresAt\<close> back to 0.
\<close>

theorem unparsable_expiry_freezes_loaded_credentials:
  assumes "expiresAt s = Finite 0"
    and "hasItem (d (ctx_store e)) ''expiresAt''"
    and "parseInt e (getItem (d (ctx_store e)) ''expiresAt'') = NaN"
    and "newInvoke e (s, d) = (c, s1, d1, tr)"
  shows "expiresAt s1 = NaN
       \<and> token s1 = getItem (d (ctx_store e)) ''token''
       \<and> entitlement s1 = getItem (d (ctx_store e)) ''entitlement''
       \<and> puuid s1 = getItem (d (ctx_store e)) ''puuid''
       \<and> d1 = d
       \<and> tr = [HasItem ''expiresAt'', GetItem ''expiresAt'', GetItem ''token'',
               GetItem ''entitlement'', GetItem ''puuid'', GetItem ''cookies'']
       \<and> (\<forall>cs. getItem (d (ctx_store e)) ''cookies'' = JJar cs \<longrightarrow>
            c = Returned \<lparr>s_entitlement = getItem (d (ctx_store e)) ''entitlement'',
                          s_token = getItem (d (ctx_store e)) ''token'',
                          s_puuid = getItem (d (ctx_store e)) ''puuid''\<rparr>)
       \<and> (\<forall>e' d'. newInvoke e' (s1, d') = (Returned (snapshot_of s1), s1, d', []))
       \<and> expiresAt (fst (clearAccount (s1, d1))) = Finite 0"
proof -
  from assms have 1: "expiresAt s1 = NaN
       \<and> token s1 = getItem (d (ctx_store e)) ''token''
       \<and> entitlement s1 = getItem (d (ctx_store e)) ''entitlement''
       \<and> puuid s1 = getItem (d (ctx_store e)) ''puuid''
       \<and> d1 = d
       \<and> tr = [HasItem ''expiresAt'', GetItem ''expiresAt'', GetItem ''token'',
               GetItem ''entitlement'', GetItem ''puuid'', GetItem ''cookies'']
       \<and> (\<forall>cs. getItem (d (ctx_store e)) ''cookies'' = JJar cs \<longrightarrow>
            c = Returned \<lparr>s_entitlement = getItem (d (ctx_store e)) ''entitlement'',
                          s_token = getItem (d (ctx_store e)) ''token'',
                          s_puuid = getItem (d (ctx_store e)) ''puuid''\<rparr>)"
    by (auto simp: newInvoke_def checkStore_def loadSaved_def Let_def snapshot_of_def
        deserializeSync_def split: sum.splits if_splits)
  from newInvoke_store[OF assms(4)] have 2: "store s1 \<noteq> None" .
  have 3: "newInvoke e' (s1, d') = (Returned (snapshot_of s1), s1, d', [])" for e' d'
    using 1 2 by (auto simp: newInvoke_def checkStore_def loadSaved_def)
  have 4: "expiresAt (fst (clearAccount (s1, d1))) = Finite 0"
    by (simp add: clearAccount_def Let_def split: prod.splits)
  from 1 3 4 show ?thesis by blast
qed

lemma run_login:
  "newInvoke (env_login ''tok1'') (constructor, no_files) =
     (Returned \<lparr>s_entitlement = JStr ''ent-tok1'', s_token = JStr ''tok1'',
                s_puuid = JStr ''sub-tok1''\<rparr>,
      signed_in, saved,
      [HasItem ''expiresAt'', InteractiveLogin, EntitlementLookup (JStr ''tok1''),
       UserinfoLookup (JStr ''tok1''),
       SetItem ''expiresAt'' (JNum (Finite 1700003309000)), SetItem ''cookies'' (JJar []),
       SetItem ''token'' (JStr ''tok1''), SetItem ''entitlement'' (JStr ''ent-tok1''),
       SetItem ''puuid'' (JStr ''sub-tok1'')])"
  by (simp add: code_defs env_login_def callback_def ent_of_def sub_of_def parseInt_dec_def
      decimal_def constructor_def no_files_def signed_in_def saved_def)

lemma run_lookup_down:
  "newInvoke env_lookup_down (signed_in, saved) =
     (Threw (External ''timeout''), half_renewed, saved,
      [InteractiveLogin, EntitlementLookup (JStr ''tok2'')])"
  by (simp add: code_defs env_lookup_down_def callback_def sub_of_def parseInt_dec_def
      decimal_def signed_in_def saved_def no_files_def half_renewed_def)

lemma run_closed:
  "newInvoke env_closed (constructor, no_files) =
     (Threw loginFailed, constructor\<lparr>store := Some 0\<rparr>, no_files,
      [HasItem ''expiresAt'', InteractiveLogin, LogError WindowClosed])"
  by (simp add: code_defs env_closed_def ent_of_def sub_of_def parseInt_dec_def decimal_def
      constructor_def no_files_def)

lemma due_lookup_down: "renewal_due env_lookup_down (signed_in, saved)"
  by (simp add: renewal_due_def before_renewal_def code_defs env_lookup_down_def callback_def
      sub_of_def parseInt_dec_def decimal_def signed_in_def saved_def no_files_def)

lemma before_lookup_down: "before_renewal env_lookup_down (signed_in, saved) = signed_in"
  by (simp add: renewal_due_def before_renewal_def code_defs env_lookup_down_def callback_def
      sub_of_def parseInt_dec_def decimal_def signed_in_def saved_def no_files_def)

lemma due_login: "renewal_due (env_login t) (constructor, no_files)"
  by (simp add: renewal_due_def before_renewal_def code_defs env_login_def callback_def
      ent_of_def sub_of_def parseInt_dec_def decimal_def constructor_def no_files_def)

lemma before_login: "before_renewal (env_login t) (constructor, no_files) = constructor\<lparr>store := Some 0\<rparr>"
  by (simp add: renewal_due_def before_renewal_def code_defs env_login_def callback_def
      ent_of_def sub_of_def parseInt_dec_def decimal_def constructor_def no_files_def)

lemma due_closed: "renewal_due env_closed (constructor, no_files)"
  by (simp add: renewal_due_def before_renewal_def code_defs env_closed_def ent_of_def
      sub_of_def parseInt_dec_def decimal_def constructor_def no_files_def)

lemma before_closed: "before_renewal env_closed (constructor, no_files) = constructor\<lparr>store := Some 0\<rparr>"
  by (simp add: renewal_due_def before_renewal_def code_defs env_closed_def ent_of_def
      sub_of_def parseInt_dec_def decimal_def constructor_def no_files_def)


lemma cookie_no_token: "hasLoginCookie (clock_cookie env_no_token) with_cookie"
  by (simp add: code_defs env_no_token_def with_cookie_def signed_in_def ssid_def)

text \<open>
  Claim C9 does not hold of the code. The fragment of this callback URL has neither
  \<^verbatim>\<open>access_token\<close> nor \<^verbatim>\<open>expires_in\<close>; \<^verbatim>\<open>getTokenDataFromURL\<close> throws nothing and
  returns two \<^verbatim>\<open>null\<close>s. On the silent path \<^verbatim>\<open>reauthToken\<close> returns that payload and the
  token acquisition ends with it, and in the login window the promise resolves with it.
\<close>

theorem parsing_accepts_redirect_without_token_fields:
  "fragment callback_bare = Some [(''foo'', ''bar'')]
   \<and> map_of [(''foo'', ''bar'')] ''access_token'' = None
   \<and> map_of [(''foo'', ''bar'')] ''expires_in'' = None
   \<and> getTokenDataFromURL (Some callback_bare) = Inr \<lparr>accessToken = JNull, expiresIn = JNull\<rparr>
   \<and> refreshToken (env_no_token\<lparr>silent := Inr (Some callback_bare, [])\<rparr>) with_cookie
       = (Returned \<lparr>accessToken = JNull, expiresIn = JNull\<rparr>, with_cookie, [SilentReauth])
   \<and> refreshToken (env_closed\<lparr>window_events := [WillRedirect callback_bare]\<rparr>) signed_in
       = (Returned \<lparr>accessToken = JNull, expiresIn = JNull\<rparr>, signed_in, [InteractiveLogin])"
proof -
  have c: "hasLoginCookie (clock_cookie (env_no_token\<lparr>silent := Inr (Some callback_bare, [])\<rparr>))
             with_cookie"
    using cookie_no_token by (simp add: env_no_token_def)
  have g: "getTokenDataFromURL (Some callback_bare) = Inr \<lparr>accessToken = JNull, expiresIn = JNull\<rparr>"
    by (simp add: callback_bare_def getTokenDataFromURL_def searchParams_get_def)
  have p: "prefix callbackUrl (href callback_bare)"
    by (simp add: callbackUrl_def callback_bare_def)
  have 1: "refreshToken (env_no_token\<lparr>silent := Inr (Some callback_bare, [])\<rparr>) with_cookie
       = (Returned \<lparr>accessToken = JNull, expiresIn = JNull\<rparr>, with_cookie, [SilentReauth])"
    using c g by (simp add: refreshToken_def attemptToken_def reauthToken_def storeCookies_def)
  have n: "\<not> hasLoginCookie (clock_cookie (env_closed\<lparr>window_events := [WillRedirect callback_bare]\<rparr>))
             signed_in"
    by (simp add: hasLoginCookie_def getCookiesSync_def signed_in_def)
  have 2: "refreshToken (env_closed\<lparr>window_events := [WillRedirect callback_bare]\<rparr>) signed_in
       = (Returned \<lparr>accessToken = JNull, expiresIn = JNull\<rparr>, signed_in, [InteractiveLogin])"
    using n g p by (simp add: refreshToken_def attemptToken_def logIn_def env_closed_def)
  from g 1 2 show ?thesis by (simp add: callback_bare_def)
qed

lemma run_no_token:
  "newInvoke env_no_token (with_cookie, saved) =
     (Returned \<lparr>s_entitlement = JUndefined, s_token = JNull, s_puuid = JUndefined\<rparr>,
      \<lparr>jar = [ssid 1800000000000], expiresAt = Finite 1700003109000, token = JNull,
        entitlement = JUndefined, puuid = JUndefined, pending = None, store = Some 0\<rparr>,
      saved(0 := [''expiresAt'' \<mapsto> JNum (Finite 1700003109000),
                  ''cookies'' \<mapsto> JJar [ssid 1800000000000], ''token'' \<mapsto> JNull,
                  ''entitlement'' \<mapsto> JUndefined, ''puuid'' \<mapsto> JUndefined]),
      [SilentReauth, EntitlementLookup JNull, UserinfoLookup JNull,
       SetItem ''expiresAt'' (JNum (Finite 1700003109000)),
       SetItem ''cookies'' (JJar [ssid 1800000000000]), SetItem ''token'' JNull,
       SetItem ''entitlement'' JUndefined, SetItem ''puuid'' JUndefined])"
  by (simp add: code_defs env_no_token_def login_page_def with_cookie_def signed_in_def
        saved_def no_files_def ssid_def)

text \<open>
  Claim C7 does not hold of the code. The instance holds a login cookie that is still
  good, so the silent re-authentication is attempted; it is answered with a redirect to
  the login page, which has no token. \<^verbatim>\<open>reauthToken\<close> throws nothing, the login window is
  never opened, and the call returns and saves a \<^verbatim>\<open>null\<close> token, with an expiry already
  past. (A silent answer without \<^verbatim>\<open>Location\<close> header, in the same place, does open the
  login window.)
\<close>

theorem silent_redirect_without_token_opens_no_login:
  "hasLoginCookie (clock_cookie env_no_token) with_cookie
   \<and> renewal_due env_no_token (with_cookie, saved)
   \<and> fst (reauthToken env_no_token with_cookie) = Inr \<lparr>accessToken = JNull, expiresIn = JNull\<rparr>
   \<and> fst (newInvoke env_no_token (with_cookie, saved)) =
       Returned \<lparr>s_entitlement = JUndefined, s_token = JNull, s_puuid = JUndefined\<rparr>
   \<and> snd (snd (snd (newInvoke env_no_token (with_cookie, saved)))) =
       [SilentReauth, EntitlementLookup JNull, UserinfoLookup JNull,
        SetItem ''expiresAt'' (JNum (Finite 1700003109000)),
        SetItem ''cookies'' (JJar [ssid 1800000000000]), SetItem ''token'' JNull,
        SetItem ''entitlement'' JUndefined, SetItem ''puuid'' JUndefined]
   \<and> InteractiveLogin \<notin> set (snd (snd (snd (newInvoke env_no_token (with_cookie, saved)))))
   \<and> snd (snd (snd (newInvoke (env_no_token\<lparr>silent := Inr (None, [])\<rparr>) (with_cookie, saved)))) =
       [SilentReauth, InteractiveLogin, EntitlementLookup (JStr ''tok2''),
        UserinfoLookup (JStr ''tok2''),
        SetItem ''expiresAt'' (JNum (Finite 1700006709000)),
        SetItem ''cookies'' (JJar [ssid 1800000000000]), SetItem ''token'' (JStr ''tok2''),
        SetItem ''entitlement'' JUndefined, SetItem ''puuid'' JUndefined]"
proof -
  have d: "renewal_due env_no_token (with_cookie, saved)"
    by (simp add: renewal_due_def before_renewal_def code_defs env_no_token_def with_cookie_def
          signed_in_def saved_def no_files_def)
  have r: "fst (reauthToken env_no_token with_cookie) = Inr \<lparr>accessToken = JNull, expiresIn = JNull\<rparr>"
    by (simp add: reauthToken_def getTokenDataFromURL_def searchParams_get_def env_no_token_def
          login_page_def)
  have f: "snd (snd (snd (newInvoke (env_no_token\<lparr>silent := Inr (None, [])\<rparr>) (with_cookie, saved)))) =
       [SilentReauth, InteractiveLogin, EntitlementLookup (JStr ''tok2''),
        UserinfoLookup (JStr ''tok2''),
        SetItem ''expiresAt'' (JNum (Finite 1700006709000)),
        SetItem ''cookies'' (JJar [ssid 1800000000000]), SetItem ''token'' (JStr ''tok2''),
        SetItem ''entitlement'' JUndefined, SetItem ''puuid'' JUndefined]"
    by (simp add: code_defs env_no_token_def callback_def with_cookie_def signed_in_def
          saved_def no_files_def ssid_def parseInt_dec_def decimal_def)
  from d r f cookie_no_token show ?thesis
    by (simp add: run_no_token)
qed

text \<open>
  The amended C2 at the call whose entitlement request times out.
\<close>

theorem failed_renewal_keeps_expiry_and_store_witness:
  "renewal_due env_lookup_down (signed_in, saved)
   \<and> newInvoke env_lookup_down (signed_in, saved) =
       (Threw (External ''timeout''), half_renewed, saved,
        [InteractiveLogin, EntitlementLookup (JStr ''tok2'')])
   \<and> expiresAt half_renewed = expiresAt signed_in
   \<and> puuid half_renewed = puuid signed_in
   \<and> token half_renewed = JStr ''tok2''
   \<and> entitlement half_renewed = entitlement signed_in"
proof -
  have a: "attemptToken env_lookup_down signed_in =
      (Returned \<lparr>accessToken = JStr ''tok2'', expiresIn = JStr ''3600''\<rparr>, signed_in, [InteractiveLogin])"
    by (simp add: code_defs env_lookup_down_def callback_def sub_of_def parseInt_dec_def
        decimal_def signed_in_def saved_def no_files_def half_renewed_def)
  have e: "entitlement_api env_lookup_down (JStr ''tok2'') = Inl (External ''timeout'')"
    by (simp add: env_lookup_down_def)
  from failed_renewal_keeps_expiry_and_store[OF due_lookup_down run_lookup_down]
       due_lookup_down run_lookup_down a e
  show ?thesis
    by (simp add: before_lookup_down)
qed

text \<open>
  C2 as stated fails: in the call whose entitlement request times out the renewal fails,
  and \<open>token\<close> is \<open>tok2\<close> afterwards where it was \<open>tok1\<close> before the attempt.
\<close>

theorem failed_lookup_leaves_new_token:
  "fst (newInvoke env_lookup_down (signed_in, saved)) = Threw (External ''timeout'')
   \<and> before_renewal env_lookup_down (signed_in, saved) = signed_in
   \<and> token signed_in = JStr ''tok1''
   \<and> token (fst (snd (newInvoke env_lookup_down (signed_in, saved)))) = JStr ''tok2''"
  by (simp add: run_lookup_down before_lookup_down) (simp add: half_renewed_def signed_in_def)

text \<open>
  The amended C3 at the call in which the login window is closed.
\<close>

theorem renewal_error_is_login_failure_or_lookup_error_witness:
  "renewal_due env_closed (constructor, no_files)
   \<and> newInvoke env_closed (constructor, no_files) =
       (Threw loginFailed, constructor\<lparr>store := Some 0\<rparr>, no_files,
        [HasItem ''expiresAt'', InteractiveLogin, LogError WindowClosed])
   \<and> ((\<exists>cause s1 tr1.
          attemptToken env_closed (before_renewal env_closed (constructor, no_files))
            = (Threw cause, s1, tr1)
          \<and> loginFailed = loginFailed
          \<and> LogError cause \<in> set [HasItem ''expiresAt'', InteractiveLogin, LogError WindowClosed])
       \<or> (\<exists>td s1 tr1.
          attemptToken env_closed (before_renewal env_closed (constructor, no_files))
            = (Returned td, s1, tr1)
          \<and> (entitlement_api env_closed (accessToken td) = Inl loginFailed
             \<or> userinfo_api env_closed (accessToken td) = Inl loginFailed)
          \<and> (\<forall>c. LogError c \<notin> set [HasItem ''expiresAt'', InteractiveLogin, LogError WindowClosed])))"
  using renewal_error_is_login_failure_or_lookup_error[OF due_closed run_closed]
        due_closed run_closed
  by blast

text \<open>
  C3 as stated fails: when the entitlement request times out the caller gets that error,
  not \<^verbatim>\<open>Error('Riot login failed')\<close>, and the error is not logged.
\<close>

theorem lookup_error_reaches_caller_unwrapped:
  "fst (newInvoke env_lookup_down (signed_in, saved)) = Threw (External ''timeout'')
   \<and> External ''timeout'' \<noteq> loginFailed
   \<and> LogError (External ''timeout'') \<notin>
       set (snd (snd (snd (newInvoke env_lookup_down (signed_in, saved)))))"
  by (simp add: run_lookup_down loginFailed_def)

text \<open>
  The amended C5 at the first call: the lookups end at 1700000009000.
\<close>

theorem renewal_expiry_from_clock_after_lookups_witness:
  "renewal_due (env_login ''tok1'') (constructor, no_files)
   \<and> to_number (env_login ''tok1'') (JStr ''3600'') = Finite 3600
   \<and> expiresAt signed_in = Finite (int (clock_done (env_login ''tok1'')) + 3600 * 1000 - 300000)
   \<and> saved (ctx_store (env_login ''tok1'')) ''expiresAt''
       = Some (JNum (Finite (int (clock_done (env_login ''tok1'')) + 3600 * 1000 - 300000)))"
proof -
  have a: "attemptToken (env_login ''tok1'') (before_renewal (env_login ''tok1'') (constructor, no_files)) =
      (Returned \<lparr>accessToken = JStr ''tok1'', expiresIn = JStr ''3600''\<rparr>,
       constructor\<lparr>store := Some 0\<rparr>, [InteractiveLogin])"
    unfolding before_login by (simp add: code_defs env_login_def callback_def ent_of_def
        sub_of_def parseInt_dec_def decimal_def constructor_def no_files_def signed_in_def
        saved_def)
  have n: "to_number (env_login ''tok1'') (expiresIn \<lparr>accessToken = JStr ''tok1'', expiresIn = JStr ''3600''\<rparr>)
        = Finite 3600"
    by (simp add: to_number_def env_login_def callback_def ent_of_def sub_of_def
        parseInt_dec_def decimal_def constructor_def no_files_def signed_in_def saved_def)
  from renewal_expiry_from_clock_after_lookups[OF due_login run_login a n] due_login n
  show ?thesis by simp
qed

text \<open>
  C5 as stated fails: the call read the clock at 1700000000000 before renewing, the payload
  lasts 3600 s, and the new expiry is 1700003309000, 9 s later than the claim has it.
\<close>

theorem renewal_expiry_later_than_call_time:
  "fst (newInvoke (env_login ''tok1'') (constructor, no_files)) =
     Returned \<lparr>s_entitlement = JStr ''ent-tok1'', s_token = JStr ''tok1'', s_puuid = JStr ''sub-tok1''\<rparr>
   \<and> to_number (env_login ''tok1'') (JStr ''3600'') = Finite 3600
   \<and> clock_check (env_login ''tok1'') = 1700000000000
   \<and> expiresAt (fst (snd (newInvoke (env_login ''tok1'') (constructor, no_files))))
       = Finite 1700003309000
   \<and> Finite 1700003309000 \<noteq> Finite (1700000000000 + 3600 * 1000 - 300000)"
  by (simp add: run_login) (simp add: to_number_def signed_in_def env_login_def callback_def
      ent_of_def sub_of_def parseInt_dec_def decimal_def constructor_def no_files_def)


text \<open>
  C10 at a saved record whose expiry is the text \<^verbatim>\<open>NaN\<close>: a call long after returns the
  same fields.
\<close>

theorem unparsable_expiry_freezes_loaded_credentials_witness:
  "expiresAt constructor = Finite 0
   \<and> hasItem (nan_record 0) ''expiresAt''
   \<and> parseInt_dec (getItem (nan_record 0) ''expiresAt'') = NaN
   \<and> fst (newInvoke (env_login ''tok1'') (constructor, nan_record)) =
       Returned \<lparr>s_entitlement = JStr ''ent-tok0'', s_token = JStr ''tok0'',
                 s_puuid = JStr ''sub-tok0''\<rparr>
   \<and> expiresAt (fst (snd (newInvoke (env_login ''tok1'') (constructor, nan_record)))) = NaN
   \<and> fst (newInvoke env_lookup_down
            (fst (snd (newInvoke (env_login ''tok1'') (constructor, nan_record))), nan_record)) =
       Returned \<lparr>s_entitlement = JStr ''ent-tok0'', s_token = JStr ''tok0'',
                 s_puuid = JStr ''sub-tok0''\<rparr>"
proof -
  obtain c s1 d1 tr where n: "newInvoke (env_login ''tok1'') (constructor, nan_record) = (c, s1, d1, tr)"
    by (metis prod_cases4)
  have h1: "expiresAt constructor = Finite 0" by (simp add: constructor_def)
  have h2: "hasItem (nan_record (ctx_store (env_login ''tok1''))) ''expiresAt''"
    by (simp add: hasItem_def env_login_def callback_def ent_of_def sub_of_def parseInt_dec_def
        decimal_def env_lookup_down_def constructor_def nan_record_def no_files_def)
  have h3: "parseInt (env_login ''tok1'') (getItem (nan_record (ctx_store (env_login ''tok1''))) ''expiresAt'') = NaN"
    by (simp add: getItem_def env_login_def callback_def ent_of_def sub_of_def parseInt_dec_def
        decimal_def env_lookup_down_def constructor_def nan_record_def no_files_def)
  have g: "getItem (nan_record (ctx_store (env_login ''tok1''))) ''cookies'' = JJar []"
     "getItem (nan_record (ctx_store (env_login ''tok1''))) ''token'' = JStr ''tok0''"
     "getItem (nan_record (ctx_store (env_login ''tok1''))) ''entitlement'' = JStr ''ent-tok0''"
     "getItem (nan_record (ctx_store (env_login ''tok1''))) ''puuid'' = JStr ''sub-tok0''"
     "ctx_store (env_login ''tok1'') = 0" "parseInt (env_login ''tok1'') = parseInt_dec"
    by (simp_all add: getItem_def env_login_def callback_def ent_of_def sub_of_def
        parseInt_dec_def decimal_def env_lookup_down_def constructor_def nan_record_def
        no_files_def)
  from unparsable_expiry_freezes_loaded_credentials[OF h1 h2 h3 n] h1 h2 h3 n g
  show ?thesis by (simp add: snapshot_of_def)
qed

lemma renew_no_reads:
  assumes "renew e (s, d) = (c, s', d', tr)"
  shows "GetItem k \<notin> set tr"
proof -
  obtain r0 s1 tr1 where a: "attemptToken e s = (r0, s1, tr1)"
    by (metis prod_cases3)
  from attemptToken_trace[OF a] have "GetItem k \<notin> set tr1"
    by (auto split: if_splits sum.splits)
  with assms a show ?thesis
    by (auto simp: renew_unfold persist_def split: completion.splits sum.splits prod.splits)
qed

lemma newInvoke_trace:
  assumes "newInvoke e (s, d) = (c, s', d', tr)"
  shows "\<exists>tr2. tr = snd (snd (loadSaved e (d (ctx_store e)) (checkStore (ctx_store e) s))) @ tr2
           \<and> (\<forall>k. GetItem k \<notin> set tr2)"
proof -
  let ?s = "checkStore (ctx_store e) s"
  obtain le s1 tr1 where l: "loadSaved e (d (ctx_store e)) ?s = (le, s1, tr1)"
    by (metis prod_cases3)
  obtain c2 s2 d2 tr2 where r: "renew e (s1, d) = (c2, s2, d2, tr2)"
    by (metis prod_cases4)
  from renew_no_reads[OF r] have "\<forall>k. GetItem k \<notin> set tr2" by simp
  with assms l r show ?thesis
    by (auto simp: newInvoke_def Let_def split: option.splits if_splits completion.splits)
qed

lemma newInvoke_reads_iff:
  assumes "newInvoke e (s, d) = (c, s', d', tr)"
  shows "GetItem ''expiresAt'' \<in> set tr \<longleftrightarrow>
           expiresAt s = Finite 0 \<and> hasItem (d (ctx_store e)) ''expiresAt''"
proof -
  have x: "expiresAt (checkStore (ctx_store e) s) = expiresAt s"
    by (simp add: checkStore_def)
  from newInvoke_trace[OF assms] show ?thesis
    by (auto simp: loadSaved_trace x split: if_splits)
qed

lemma attemptToken_payload:
  assumes "attemptToken e s = (Returned td, s1, tr)"
  shows "td \<in> set (payloads e)"
  using assms
  by (auto simp: attemptToken_def reauthToken_def logIn_def payloads_def
      split: if_splits sum.splits prod.splits option.splits)

lemma loadSaved_expiry:
  "expiresAt (fst (snd (loadSaved e m s))) =
     (if expiresAt s = Finite 0 \<and> hasItem m ''expiresAt''
      then parseInt e (getItem m ''expiresAt'') else expiresAt s)"
  by (simp add: loadSaved_def Let_def split: sum.splits)

lemma renew_expiry:
  assumes "renew e (s, d) = (c, s', d', tr)"
  shows "(expiresAt s' = expiresAt s \<and> d' = d)
       \<or> (\<exists>td \<in> set (payloads e). expiresAt s' = newExpiresAt e td)"
proof -
  obtain r0 s1 tr1 where a: "attemptToken e s = (r0, s1, tr1)"
    by (metis prod_cases3)
  show ?thesis
  proof (cases r0)
    case Unsettled
    with assms a attemptToken_fields[OF a] show ?thesis by (auto simp: renew_unfold)
  next
    case (Threw cause)
    with assms a attemptToken_fields[OF a] show ?thesis by (auto simp: renew_unfold)
  next
    case (Returned td)
    with a have "td \<in> set (payloads e)" by (simp add: attemptToken_payload)
    with assms a Returned attemptToken_fields[OF a] show ?thesis
      by (auto simp: renew_unfold renewed_def split: sum.splits prod.splits)
  qed
qed

lemma newInvoke_expiry:
  assumes "newInvoke e (s, d) = (c, s', d', tr)"
  shows "(expiresAt s' =
            (if expiresAt s = Finite 0 \<and> hasItem (d (ctx_store e)) ''expiresAt''
             then parseInt e (getItem (d (ctx_store e)) ''expiresAt'') else expiresAt s)
          \<and> d' = d)
       \<or> (\<exists>td \<in> set (payloads e). expiresAt s' = newExpiresAt e td)"
proof -
  let ?s = "checkStore (ctx_store e) s"
  have x: "expiresAt ?s = expiresAt s" by (simp add: checkStore_def)
  obtain le s1 tr1 where l: "loadSaved e (d (ctx_store e)) ?s = (le, s1, tr1)"
    by (metis prod_cases3)
  with loadSaved_expiry[of e "d (ctx_store e)" ?s] x
  have 1: "expiresAt s1 =
            (if expiresAt s = Finite 0 \<and> hasItem (d (ctx_store e)) ''expiresAt''
             then parseInt e (getItem (d (ctx_store e)) ''expiresAt'') else expiresAt s)"
    by simp
  obtain c2 s2 d2 tr2 where r: "renew e (s1, d) = (c2, s2, d2, tr2)"
    by (metis prod_cases4)
  from renew_expiry[OF r] 1 assms l r show ?thesis
    by (auto simp: newInvoke_def Let_def split: option.splits if_splits completion.splits)
qed

lemma loads_bound:
  assumes "\<forall>e \<in> set es. \<forall>td \<in> set (payloads e). newExpiresAt e td \<noteq> Finite 0"
    and "expiresAt s = Finite 0 \<longrightarrow>
           (\<forall>e \<in> set es. hasItem (d (ctx_store e)) ''expiresAt'' \<longrightarrow>
              parseInt e (getItem (d (ctx_store e)) ''expiresAt'') \<noteq> Finite 0)"
  shows "loads (invocations es (s, d)) \<le> (if expiresAt s = Finite 0 then 1 else 0)"
  using assms
proof (induction es arbitrary: s d)
  case Nil
  show ?case by (simp add: loads_def)
next
  case (Cons e es)
  obtain c s1 d1 tr where n: "newInvoke e (s, d) = (c, s1, d1, tr)"
    by (metis prod_cases4)
  have h3: "\<forall>e \<in> set es. \<forall>td \<in> set (payloads e). newExpiresAt e td \<noteq> Finite 0"
    and h3e: "\<forall>td \<in> set (payloads e). newExpiresAt e td \<noteq> Finite 0"
    using Cons.prems(1) by simp_all
  note rd = newInvoke_reads_iff[OF n]
  note ex = newInvoke_expiry[OF n]
  have tail: "loads (invocations es (s1, d1)) \<le> (if expiresAt s1 = Finite 0 then 1 else 0)"
    if "expiresAt s1 = Finite 0 \<longrightarrow>
           (\<forall>e \<in> set es. hasItem (d1 (ctx_store e)) ''expiresAt'' \<longrightarrow>
              parseInt e (getItem (d1 (ctx_store e)) ''expiresAt'') \<noteq> Finite 0)"
    using Cons.IH[OF h3 that] .
  have here: "loads (invocations (e # es) (s, d)) =
      (if GetItem ''expiresAt'' \<in> set tr then 1 else 0)
      + (if c = Unsettled then 0 else loads (invocations es (s1, d1)))"
    using n by (cases c) (simp_all add: loads_def)
  show ?case
  proof (cases "expiresAt s = Finite 0")
    case False
    with rd have nr: "GetItem ''expiresAt'' \<notin> set tr" by simp
    from ex False h3e have nz: "expiresAt s1 \<noteq> Finite 0" by auto
    with tail have "loads (invocations es (s1, d1)) = 0" by simp
    with here nr False show ?thesis by simp
  next
    case True
    show ?thesis
    proof (cases "hasItem (d (ctx_store e)) ''expiresAt''")
      case has: True
      with True Cons.prems(2)
      have "parseInt e (getItem (d (ctx_store e)) ''expiresAt'') \<noteq> Finite 0" by simp
      with ex True has h3e have nz: "expiresAt s1 \<noteq> Finite 0" by auto
      with tail have "loads (invocations es (s1, d1)) = 0" by simp
      with here True show ?thesis by simp
    next
      case False
      with rd have nr: "GetItem ''expiresAt'' \<notin> set tr" by simp
      from ex True False h3e have "(expiresAt s1 = Finite 0 \<and> d1 = d) \<or> expiresAt s1 \<noteq> Finite 0"
        by auto
      then have "expiresAt s1 = Finite 0 \<longrightarrow>
           (\<forall>e \<in> set es. hasItem (d1 (ctx_store e)) ''expiresAt'' \<longrightarrow>
              parseInt e (getItem (d1 (ctx_store e)) ''expiresAt'') \<noteq> Finite 0)"
        using Cons.prems(2) True by auto
      from tail[OF this] have "loads (invocations es (s1, d1)) \<le> 1" by (simp split: if_splits)
      with here nr True show ?thesis by simp
    qed
  qed
qed

text \<open>
  Claim C8, as amended. A call reads the saved record exactly when it starts with the
  \<open>expiresAt\<close> of the instance equal to 0 and the store has the key \<^verbatim>\<open>expiresAt\<close>. In every
  sequence of calls, from any state of the instance, the record is read at most once,
  provided that what is saved under \<^verbatim>\<open>expiresAt\<close> at the start does not read as the number
  0 and that no payload a call can get gives the new expiry 0.
\<close>

theorem record_read_at_most_once:
  "(newInvoke e (s, d) = (c, s', d', tr) \<longrightarrow>
      (GetItem ''expiresAt'' \<in> set tr \<longleftrightarrow>
         expiresAt s = Finite 0 \<and> hasItem (d (ctx_store e)) ''expiresAt''))
   \<and> ((\<forall>x \<in> set es.
          (hasItem (d (ctx_store x)) ''expiresAt'' \<longrightarrow>
             parseInt x (getItem (d (ctx_store x)) ''expiresAt'') \<noteq> Finite 0)
          \<and> (\<forall>td \<in> set (payloads x). newExpiresAt x td \<noteq> Finite 0)) \<longrightarrow>
        loads (invocations es (s, d)) \<le> 1)"
proof -
  have "loads (invocations es (s, d)) \<le> 1"
    if h: "\<forall>x \<in> set es.
          (hasItem (d (ctx_store x)) ''expiresAt'' \<longrightarrow>
             parseInt x (getItem (d (ctx_store x)) ''expiresAt'') \<noteq> Finite 0)
          \<and> (\<forall>td \<in> set (payloads x). newExpiresAt x td \<noteq> Finite 0)"
  proof -
    from h have "\<forall>e \<in> set es. \<forall>td \<in> set (payloads e). newExpiresAt e td \<noteq> Finite 0"
      and "expiresAt s = Finite 0 \<longrightarrow>
           (\<forall>e \<in> set es. hasItem (d (ctx_store e)) ''expiresAt'' \<longrightarrow>
              parseInt e (getItem (d (ctx_store e)) ''expiresAt'') \<noteq> Finite 0)"
      by auto
    from loads_bound[OF this] show ?thesis by (simp split: if_splits)
  qed
  then show ?thesis using newInvoke_reads_iff by blast
qed

lemma run_zero_record:
  "newInvoke env_closed (s, zero_record) =
     (Threw loginFailed,
      \<lparr>jar = [], expiresAt = Finite 0, token = JStr ''tok0'', entitlement = JStr ''ent-tok0'',
        puuid = JStr ''sub-tok0'', pending = None, store = Some 0\<rparr>,
      zero_record,
      [HasItem ''expiresAt'', GetItem ''expiresAt'', GetItem ''token'', GetItem ''entitlement'',
       GetItem ''puuid'', GetItem ''cookies'', InteractiveLogin, LogError WindowClosed])"
  if "s = constructor \<or> s = \<lparr>jar = [], expiresAt = Finite 0, token = JStr ''tok0'', entitlement = JStr ''ent-tok0'',
        puuid = JStr ''sub-tok0'', pending = None, store = Some 0\<rparr>"
  using that by (auto simp: code_defs env_closed_def ent_of_def sub_of_def parseInt_dec_def
      decimal_def constructor_def zero_record_def no_files_def)

lemma run_epoch_first:
  "newInvoke env_epoch (constructor, no_files) =
     (Returned \<lparr>s_entitlement = JStr ''ent-tok1'', s_token = JStr ''tok1'',
                s_puuid = JStr ''sub-tok1''\<rparr>, epoch_state, epoch_record,
      [HasItem ''expiresAt'', InteractiveLogin, EntitlementLookup (JStr ''tok1''),
       UserinfoLookup (JStr ''tok1''),
       SetItem ''expiresAt'' (JNum (Finite 0)), SetItem ''cookies'' (JJar []),
       SetItem ''token'' (JStr ''tok1''), SetItem ''entitlement'' (JStr ''ent-tok1''),
       SetItem ''puuid'' (JStr ''sub-tok1'')])"
  by (simp add: code_defs env_epoch_def callback_def ent_of_def sub_of_def parseInt_dec_def
        decimal_def constructor_def no_files_def epoch_state_def epoch_record_def)

lemma run_epoch_again:
  "newInvoke env_epoch (epoch_state, epoch_record) =
     (Returned \<lparr>s_entitlement = JStr ''ent-tok1'', s_token = JStr ''tok1'',
                s_puuid = JStr ''sub-tok1''\<rparr>, epoch_state, epoch_record,
      [HasItem ''expiresAt'', GetItem ''expiresAt'', GetItem ''token'', GetItem ''entitlement'',
       GetItem ''puuid'', GetItem ''cookies'', InteractiveLogin,
       EntitlementLookup (JStr ''tok1''), UserinfoLookup (JStr ''tok1''),
       SetItem ''expiresAt'' (JNum (Finite 0)), SetItem ''cookies'' (JJar []),
       SetItem ''token'' (JStr ''tok1''), SetItem ''entitlement'' (JStr ''ent-tok1''),
       SetItem ''puuid'' (JStr ''sub-tok1'')])"
  by (simp add: code_defs env_epoch_def callback_def ent_of_def sub_of_def parseInt_dec_def
        decimal_def no_files_def epoch_state_def epoch_record_def)

text \<open>
  C8 as stated fails. With a saved expiry that reads as 0 and a login the user abandons,
  two calls in a row both read the saved record. And when a renewal computes the expiry 0
  (a token that lasts 0 s, got five minutes after the epoch), the two calls after it both
  read the record it saved.
\<close>

theorem record_read_twice:
  "loads (invocations [env_closed, env_closed] (constructor, zero_record)) = 2
   \<and> loads (invocations [env_epoch, env_epoch, env_epoch] (constructor, no_files)) = 2"
  by (simp add: run_zero_record run_epoch_first run_epoch_again loads_def)

lemma run_saved:
  "newInvoke (env_login t) (constructor, saved) =
     (Returned \<lparr>s_entitlement = JStr ''ent-tok1'', s_token = JStr ''tok1'',
                s_puuid = JStr ''sub-tok1''\<rparr>,
      signed_in, saved,
      [HasItem ''expiresAt'', GetItem ''expiresAt'', GetItem ''token'', GetItem ''entitlement'',
       GetItem ''puuid'', GetItem ''cookies''])"
  by (simp add: code_defs env_login_def callback_def ent_of_def sub_of_def parseInt_dec_def
        decimal_def constructor_def no_files_def signed_in_def saved_def)

lemma run_signed_in:
  "newInvoke (env_login t) (signed_in, saved) =
     (Returned \<lparr>s_entitlement = JStr ''ent-tok1'', s_token = JStr ''tok1'',
                s_puuid = JStr ''sub-tok1''\<rparr>, signed_in, saved, [])"
  by (simp add: code_defs env_login_def callback_def ent_of_def sub_of_def parseInt_dec_def
        decimal_def no_files_def signed_in_def saved_def)

lemma payloads_login:
  "payloads (env_login t) = [\<lparr>accessToken = JStr t, expiresIn = JStr ''3600''\<rparr>]"
  by (simp add: payloads_def env_login_def callback_def callbackUrl_def getTokenDataFromURL_def
        searchParams_get_def)

lemma payloads_closed: "payloads env_closed = []"
  by (simp add: payloads_def env_closed_def)

lemma expiry_login:
  "newExpiresAt (env_login t) \<lparr>accessToken = JStr t, expiresIn = JStr ''3600''\<rparr>
     = Finite 1700003309000"
  by (simp add: newExpiresAt_def to_number_def env_login_def decimal_def)

text \<open>
  The amended C8 on two sequences. After a restart with a saved record the first call
  reads it and the second does not. On an empty store, a login that is abandoned and one
  that goes through read nothing.
\<close>

theorem record_read_at_most_once_witness:
  "hasItem (saved (ctx_store (env_login ''tok8''))) ''expiresAt''
   \<and> parseInt (env_login ''tok8'') (getItem (saved (ctx_store (env_login ''tok8''))) ''expiresAt'')
       = Finite 1700003309000
   \<and> payloads (env_login ''tok8'') = [\<lparr>accessToken = JStr ''tok8'', expiresIn = JStr ''3600''\<rparr>]
   \<and> newExpiresAt (env_login ''tok8'') \<lparr>accessToken = JStr ''tok8'', expiresIn = JStr ''3600''\<rparr>
       = Finite 1700003309000
   \<and> invocations [env_login ''tok8'', env_login ''tok9''] (constructor, saved) =
       [(signed_in, [HasItem ''expiresAt'', GetItem ''expiresAt'', GetItem ''token'',
          GetItem ''entitlement'', GetItem ''puuid'', GetItem ''cookies'']), (signed_in, [])]
   \<and> loads (invocations [env_login ''tok8'', env_login ''tok9''] (constructor, saved)) \<le> 1
   \<and> \<not> hasItem (no_files (ctx_store env_closed)) ''expiresAt''
   \<and> payloads env_closed = []
   \<and> loads (invocations [env_closed, env_login ''tok1''] (constructor, no_files)) \<le> 1"
proof -
  have s: "ctx_store (env_login t) = 0" "parseInt (env_login t) = parseInt_dec"
    "ctx_store env_closed = 0" for t
    by (simp_all add: env_login_def env_closed_def)
  have h: "hasItem (saved 0) ''expiresAt''"
    and p: "parseInt_dec (getItem (saved 0) ''expiresAt'') = Finite 1700003309000"
    by (simp_all add: hasItem_def getItem_def saved_def parseInt_dec_def)
  have n: "\<not> hasItem (no_files 0) ''expiresAt''"
    by (simp add: hasItem_def no_files_def)
  have i: "invocations [env_login ''tok8'', env_login ''tok9''] (constructor, saved) =
       [(signed_in, [HasItem ''expiresAt'', GetItem ''expiresAt'', GetItem ''token'',
          GetItem ''entitlement'', GetItem ''puuid'', GetItem ''cookies'']), (signed_in, [])]"
    by (simp add: run_saved run_signed_in)
  have a: "\<forall>x \<in> set [env_login ''tok8'', env_login ''tok9''].
          (hasItem (saved (ctx_store x)) ''expiresAt'' \<longrightarrow>
             parseInt x (getItem (saved (ctx_store x)) ''expiresAt'') \<noteq> Finite 0)
          \<and> (\<forall>td \<in> set (payloads x). newExpiresAt x td \<noteq> Finite 0)"
    by (simp add: s p payloads_login expiry_login)
  have b: "\<forall>x \<in> set [env_closed, env_login ''tok1''].
          (hasItem (no_files (ctx_store x)) ''expiresAt'' \<longrightarrow>
             parseInt x (getItem (no_files (ctx_store x)) ''expiresAt'') \<noteq> Finite 0)
          \<and> (\<forall>td \<in> set (payloads x). newExpiresAt x td \<noteq> Finite 0)"
    by (simp add: s n payloads_login payloads_closed expiry_login)
  from record_read_at_most_once
         [where d = saved and es = "[env_login ''tok8'', env_login ''tok9'']" and s = constructor]
       a
  have 1: "loads (invocations [env_login ''tok8'', env_login ''tok9''] (constructor, saved)) \<le> 1"
    by blast
  from record_read_at_most_once
         [where d = no_files and es = "[env_closed, env_login ''tok1'']" and s = constructor]
       b
  have 2: "loads (invocations [env_closed, env_login ''tok1''] (constructor, no_files)) \<le> 1"
    by blast
  from 1 2 i h p n show ?thesis
    by (simp add: s payloads_login payloads_closed expiry_login)
qed





subsection \<open>Callers that overlap\<close>

lemma loadSaved_pending:
  "loadSaved e m (s\<lparr>pending := x\<rparr>) =
     (case loadSaved e m s of (le, s1, tr) \<Rightarrow> (le, s1\<lparr>pending := x\<rparr>, tr))"
  by (simp add: loadSaved_def Let_def split: sum.splits)

lemma logIn_pending:
  "logIn e (s\<lparr>pending := x\<rparr>) = (case logIn e s of (r, s1) \<Rightarrow> (r, s1\<lparr>pending := x\<rparr>))"
  by (simp add: logIn_def split: option.splits sum.splits prod.splits)

lemma reauthToken_pending:
  "reauthToken e (s\<lparr>pending := x\<rparr>) =
     (case reauthToken e s of (r, s1) \<Rightarrow> (r, s1\<lparr>pending := x\<rparr>))"
  by (simp add: reauthToken_def storeCookies_def split: sum.splits prod.splits)

lemma attemptToken_pending:
  "attemptToken e (s\<lparr>pending := x\<rparr>) =
     (case attemptToken e s of (r, s1, tr) \<Rightarrow> (r, s1\<lparr>pending := x\<rparr>, tr))"
  by (simp add: attemptToken_def hasLoginCookie_def logIn_pending reauthToken_pending
      split: sum.splits prod.splits)

lemma renew_pending:
  "renew e (s\<lparr>pending := x\<rparr>, d) =
     (case renew e (s, d) of (r, s1, d1, tr) \<Rightarrow> (r, s1\<lparr>pending := x\<rparr>, d1, tr))"
proof -
  obtain r0 s1 tr1 where a: "attemptToken e s = (r0, s1, tr1)"
    by (metis prod_cases3)
  then have b: "attemptToken e (s\<lparr>pending := x\<rparr>) = (r0, s1\<lparr>pending := x\<rparr>, tr1)"
    by (simp add: attemptToken_pending)
  show ?thesis
  proof (cases r0)
    case Unsettled
    with a b show ?thesis by (simp add: renew_unfold)
  next
    case (Threw cause)
    with a b show ?thesis by (simp add: renew_unfold)
  next
    case (Returned td)
    show ?thesis
    proof (cases "entitlement_api e (accessToken td)")
      case (Inl err)
      with a b Returned show ?thesis by (simp add: renew_unfold)
    next
      case (Inr p)
      obtain ent cs where p: "p = (ent, cs)" by (cases p)
      show ?thesis
      proof (cases "userinfo_api e (accessToken td)")
        case (Inl err)
        with a b Returned Inr p show ?thesis by (simp add: renew_unfold storeCookies_def)
      next
        case (Inr q)
        obtain sub cs' where q: "q = (sub, cs')" by (cases q)
        have "renewed e td ent cs sub cs' (s1\<lparr>pending := x\<rparr>) =
                (renewed e td ent cs sub cs' s1)\<lparr>pending := x\<rparr>"
          by (simp add: renewed_def storeCookies_def)
        moreover have "persist (y\<lparr>pending := x\<rparr>) m = persist y m" for y m
          by (simp add: persist_def)
        ultimately show ?thesis
          using a b Returned \<open>entitlement_api e (accessToken td) = Inr p\<close> p Inr q
          by (simp add: renew_unfold)
      qed
    qed
  qed
qed

lemma newInvoke_pending:
  "newInvoke e (s\<lparr>pending := x\<rparr>, d) =
     (case newInvoke e (s, d) of (r, s1, d1, tr) \<Rightarrow> (r, s1\<lparr>pending := x\<rparr>, d1, tr))"
proof -
  let ?s = "checkStore (ctx_store e) s"
  have c: "checkStore (ctx_store e) (s\<lparr>pending := x\<rparr>) = ?s\<lparr>pending := x\<rparr>"
    by (simp add: checkStore_def)
  obtain le s1 tr1 where l: "loadSaved e (d (ctx_store e)) ?s = (le, s1, tr1)"
    by (metis prod_cases3)
  then have l': "loadSaved e (d (ctx_store e)) (?s\<lparr>pending := x\<rparr>) = (le, s1\<lparr>pending := x\<rparr>, tr1)"
    by (simp add: loadSaved_pending)
  obtain c2 s2 d2 tr2 where r: "renew e (s1, d) = (c2, s2, d2, tr2)"
    by (metis prod_cases4)
  then have r': "renew e (s1\<lparr>pending := x\<rparr>, d) = (c2, s2\<lparr>pending := x\<rparr>, d2, tr2)"
    by (simp add: renew_pending)
  show ?thesis
  proof (cases le)
    case (Some err)
    with l l' c show ?thesis by (simp add: newInvoke_def)
  next
    case None
    show ?thesis
    proof (cases "js_le (expiresAt s1) (Finite (int (clock_check e)))")
      case False
      with None l l' c show ?thesis by (simp add: newInvoke_def snapshot_of_def)
    next
      case True
      with None l l' c r r' show ?thesis
        by (cases c2) (simp_all add: newInvoke_def snapshot_of_def)
    qed
  qed
qed

lemma newInvoke_keeps_pending:
  assumes "newInvoke e (s, d) = (r, s', d', tr)"
  shows "pending s' = pending s"
proof -
  let ?s = "checkStore (ctx_store e) s"
  have 0: "pending ?s = pending s" by (simp add: checkStore_def)
  obtain le s1 tr1 where l: "loadSaved e (d (ctx_store e)) ?s = (le, s1, tr1)"
    by (metis prod_cases3)
  then have 1: "pending s1 = pending s"
    using 0 by (auto simp: loadSaved_def Let_def split: if_splits sum.splits)
  obtain c2 s2 d2 tr2 where r: "renew e (s1, d) = (c2, s2, d2, tr2)"
    by (metis prod_cases4)
  from renew_store[OF r] 1 have "pending s2 = pending s" by simp
  with assms l r 1 show ?thesis
    by (auto simp: newInvoke_def Let_def split: option.splits if_splits completion.splits)
qed

lemma calls_join:
  assumes "pending (inst w) = Some p"
  shows "calls ces w = w\<lparr>waiting := waiting w @ map (\<lambda>a. (a, p)) (map fst ces)\<rparr>"
  using assms
proof (induction ces arbitrary: w)
  case Nil
  show ?case by simp
next
  case (Cons ce ces)
  obtain c e where ce: "ce = (c, e)" by (cases ce)
  have "pending (inst (invoke_call c e w)) = Some p"
    using Cons.prems by (simp add: invoke_call_def)
  from Cons.IH[OF this] Cons.prems ce show ?case
    by (simp add: invoke_call_def)
qed

lemma calls_first:
  assumes "pending (inst w) = None"
  shows "calls ((c, e) # ces) w =
     w\<lparr>inst := (inst w)\<lparr>pending := Some (length (promises w))\<rparr>,
       promises := promises w @ [InFlight e],
       waiting := waiting w @ map (\<lambda>a. (a, length (promises w))) (map fst ((c, e) # ces))\<rparr>"
proof -
  have "pending (inst (invoke_call c e w)) = Some (length (promises w))"
    using assms by (simp add: invoke_call_def)
  from calls_join[OF this, of ces] assms show ?thesis
    by (simp add: invoke_call_def)
qed

lemma map_of_waiters:
  "map_of (map (\<lambda>a. (a, p)) cs) c = (if c \<in> set cs then Some p else None)"
  by (induction cs) auto

lemma filter_waiters:
  "filter (\<lambda>x. fst x \<noteq> c) (map (\<lambda>a. (a, p)) cs) = map (\<lambda>a. (a, p)) (filter (\<lambda>a. a \<noteq> c) cs)"
  by (induction cs) auto

lemma resumes_all:
  assumes "waiting w = map (\<lambda>a. (a, p)) cs" and "p < length (promises w)"
    and "promises w ! p = Settled r" and "distinct order" and "set order \<subseteq> set cs"
    and "order \<noteq> []"
  shows "resumes order w =
     Some (w\<lparr>inst := (inst w)\<lparr>pending := None\<rparr>,
             waiting := map (\<lambda>a. (a, p)) (filter (\<lambda>a. a \<notin> set order) cs),
             received := received w @ map (\<lambda>a. (a, r)) order\<rparr>)"
  using assms
proof (induction order arbitrary: w cs)
  case Nil
  then show ?case by simp
next
  case (Cons c order)
  let ?w = "w\<lparr>inst := (inst w)\<lparr>pending := None\<rparr>,
              waiting := map (\<lambda>a. (a, p)) (filter (\<lambda>a. a \<noteq> c) cs),
              received := received w @ [(c, r)]\<rparr>"
  from Cons.prems have 1: "resume c w = Some ?w"
    by (simp add: resume_def map_of_waiters filter_waiters)
  show ?case
  proof (cases "order = []")
    case True
    with 1 show ?thesis by simp
  next
    case False
    have "resumes order ?w =
       Some (?w\<lparr>inst := (inst ?w)\<lparr>pending := None\<rparr>,
             waiting := map (\<lambda>a. (a, p)) (filter (\<lambda>a. a \<notin> set order) (filter (\<lambda>a. a \<noteq> c) cs)),
             received := received ?w @ map (\<lambda>a. (a, r)) order\<rparr>)"
      using Cons.prems False by (intro Cons.IH) auto
    moreover have "filter (\<lambda>a. a \<notin> set order) (filter (\<lambda>a. a \<noteq> c) cs)
        = filter (\<lambda>a. a \<notin> set (c # order)) cs"
      by (induction cs) auto
    ultimately show ?thesis using 1 by simp
  qed
qed

lemma renew_counts:
  assumes "renew e (s, d) = (c, s', d', tr)"
  shows "length (filter (\<lambda>x. x = SilentReauth) tr) \<le> 1
       \<and> length (filter (\<lambda>x. x = InteractiveLogin) tr) \<le> 1
       \<and> length (filter is_entitlement_lookup tr) \<le> 1
       \<and> length (filter is_userinfo_lookup tr) \<le> 1
       \<and> (SilentReauth \<in> set tr \<or> InteractiveLogin \<in> set tr)
       \<and> (filter is_entitlement_lookup tr \<noteq> [] \<longleftrightarrow>
            (\<exists>td s1 tr1. attemptToken e s = (Returned td, s1, tr1)))"
proof -
  obtain r0 s1 tr1 where a: "attemptToken e s = (r0, s1, tr1)"
    by (metis prod_cases3)
  from attemptToken_trace[OF a]
  have t: "tr1 = [SilentReauth] \<or> tr1 = [SilentReauth, InteractiveLogin] \<or> tr1 = [InteractiveLogin]"
    by (auto split: if_splits sum.splits)
  have p: "filter (\<lambda>x. x = SilentReauth) (snd (persist y m)) = []"
     "filter (\<lambda>x. x = InteractiveLogin) (snd (persist y m)) = []"
     "filter is_entitlement_lookup (snd (persist y m)) = []"
     "filter is_userinfo_lookup (snd (persist y m)) = []" for y m
    by (simp_all add: persist_def)
  show ?thesis
  proof (cases r0)
    case Unsettled
    with assms a t show ?thesis by (auto simp: renew_unfold)
  next
    case (Threw cause)
    with assms a t show ?thesis by (auto simp: renew_unfold)
  next
    case (Returned td)
    with assms a t p show ?thesis
      by (auto simp: renew_unfold split: sum.splits prod.splits)
  qed
qed

lemma newInvoke_cases:
  assumes "newInvoke e (s, d) = (c, s', d', tr)"
  shows "(renewal_due e (s, d)
           \<and> (\<exists>c2 tr2. renew e (before_renewal e (s, d), d) = (c2, s', d', tr2)
                 \<and> tr = snd (snd (loadSaved e (d (ctx_store e)) (checkStore (ctx_store e) s))) @ tr2))
       \<or> (\<not> renewal_due e (s, d)
           \<and> tr = snd (snd (loadSaved e (d (ctx_store e)) (checkStore (ctx_store e) s))))"
proof (cases "renewal_due e (s, d)")
  case True
  obtain c2 s2 d2 tr2 where r: "renew e (before_renewal e (s, d), d) = (c2, s2, d2, tr2)"
    by (metis prod_cases4)
  with assms True show ?thesis by (auto simp: newInvoke_due)
next
  case False
  with assms show ?thesis
    by (auto simp: newInvoke_def renewal_due_def before_renewal_def Let_def
        split: prod.splits option.splits)
qed

lemma newInvoke_counts:
  assumes "newInvoke e (s, d) = (c, s', d', tr)"
  shows "length (filter (\<lambda>x. x = SilentReauth) tr) \<le> 1
       \<and> length (filter (\<lambda>x. x = InteractiveLogin) tr) \<le> 1
       \<and> length (filter is_entitlement_lookup tr) \<le> 1
       \<and> length (filter is_userinfo_lookup tr) \<le> 1
       \<and> (renewal_due e (s, d) \<longrightarrow>
            (SilentReauth \<in> set tr \<or> InteractiveLogin \<in> set tr)
            \<and> (filter is_entitlement_lookup tr \<noteq> [] \<longleftrightarrow>
                 (\<exists>td s1 tr1. attemptToken e (before_renewal e (s, d)) = (Returned td, s1, tr1))))"
proof -
  let ?l = "snd (snd (loadSaved e (d (ctx_store e)) (checkStore (ctx_store e) s)))"
  have l: "filter (\<lambda>x. x = SilentReauth) ?l = []" "filter (\<lambda>x. x = InteractiveLogin) ?l = []"
     "filter is_entitlement_lookup ?l = []" "filter is_userinfo_lookup ?l = []"
    by (simp_all add: loadSaved_trace)
  from newInvoke_cases[OF assms] show ?thesis
  proof
    assume "renewal_due e (s, d)
           \<and> (\<exists>c2 tr2. renew e (before_renewal e (s, d), d) = (c2, s', d', tr2) \<and> tr = ?l @ tr2)"
    then obtain c2 tr2 where r: "renew e (before_renewal e (s, d), d) = (c2, s', d', tr2)"
      and tr: "tr = ?l @ tr2" by blast
    from renew_counts[OF r] tr l show ?thesis by auto
  next
    assume "\<not> renewal_due e (s, d) \<and> tr = ?l"
    with l show ?thesis by simp
  qed
qed

lemma run_append:
  "run (xs @ ys) w = (case run xs w of None \<Rightarrow> None | Some w' \<Rightarrow> run ys w')"
  by (induction xs arbitrary: w) (auto split: option.splits)

lemma run_entering: "run (entering ces) w = Some (calls ces w)"
  by (induction ces arbitrary: w) (auto simp: entering_def)

lemma run_resumes: "run (map Resume cs) w = resumes cs w"
  by (induction cs arbitrary: w) (auto split: option.splits)

text \<open>
  Claim C1, as amended. The instance has no renewal pending and nobody waiting. Caller
  \<open>c\<close> enters \<^verbatim>\<open>invoke\<close>, then the callers \<open>early\<close> enter while the promise is in flight,
  the promise settles, the callers \<open>late\<close> enter before anybody has gone on, and then all
  these callers go on, in any order, before the next call is made. In every such
  schedule \<^verbatim>\<open>_newInvoke\<close> runs once, with the context of the first caller: one promise is
  added, and the effects are those of that one run, in which the silent request, the login
  window and each of the two lookups occur at most once. When that run renews, the silent
  request or the login window does occur, and the entitlement lookup occurs exactly when
  the token acquisition returned, so not at all when it failed. Each of the callers gets
  the same completion, a result or an error; at the end \<open>pending\<close> is \<^verbatim>\<open>null\<close> again, nobody
  is left waiting, and the next call starts \<^verbatim>\<open>_newInvoke\<close> anew. With \<open>early\<close> and \<open>late\<close>
  empty this is a lone call of \<^verbatim>\<open>invoke\<close>: it ends as \<open>newInvoke\<close> ends, with the same
  instance, store and effects.
\<close>

theorem overlapping_calls_share_one_run:
  assumes "pending (inst w) = None" and "waiting w = []"
    and "distinct (map fst ((c, context) # early @ late))"
    and "newInvoke context (inst w, files w) = (r, s, d, tr)" and "r \<noteq> Unsettled"
    and "distinct order" and "set order = set (map fst ((c, context) # early @ late))"
  shows "\<exists>w2.
           run (entering ((c, context) # early) @ [Settle (length (promises w))]
                @ entering late @ map Resume order) w = Some w2
         \<and> promises w2 = promises w @ [Settled r]
         \<and> effects w2 = effects w @ tr
         \<and> length (filter (\<lambda>x. x = SilentReauth) tr) \<le> 1
         \<and> length (filter (\<lambda>x. x = InteractiveLogin) tr) \<le> 1
         \<and> length (filter is_entitlement_lookup tr) \<le> 1
         \<and> length (filter is_userinfo_lookup tr) \<le> 1
         \<and> (renewal_due context (inst w, files w) \<longrightarrow>
              (SilentReauth \<in> set tr \<or> InteractiveLogin \<in> set tr)
              \<and> (filter is_entitlement_lookup tr \<noteq> [] \<longleftrightarrow>
                   (\<exists>td s1 tr1. attemptToken context (before_renewal context (inst w, files w))
                       = (Returned td, s1, tr1))))
         \<and> received w2 = received w @ map (\<lambda>a. (a, r)) order
         \<and> inst w2 = s \<and> files w2 = d
         \<and> pending (inst w2) = None \<and> waiting w2 = []
         \<and> promises (invoke_call c' context' w2) = promises w2 @ [InFlight context']"
proof -
  let ?n = "length (promises w)"
  let ?cs = "map fst ((c, context) # early @ late)"
  let ?w0 = "calls ((c, context) # early) w"
  let ?w1 = "?w0\<lparr>inst := s\<lparr>pending := Some ?n\<rparr>, files := d,
                  promises := (promises ?w0)[?n := Settled r], effects := effects ?w0 @ tr\<rparr>"
  let ?w1' = "calls late ?w1"
  have w0: "?w0 = w\<lparr>inst := (inst w)\<lparr>pending := Some ?n\<rparr>,
                    promises := promises w @ [InFlight context],
                    waiting := map (\<lambda>a. (a, ?n)) (map fst ((c, context) # early))\<rparr>"
    using calls_first[OF assms(1), of c "context" early] assms(2) by simp
  have p: "pending s = None"
    using newInvoke_keeps_pending[OF assms(4)] assms(1) by simp
  have n: "newInvoke context ((inst w)\<lparr>pending := Some ?n\<rparr>, files w) =
             (r, s\<lparr>pending := Some ?n\<rparr>, d, tr)"
    using assms(4) by (simp add: newInvoke_pending)
  have 1: "settle ?n ?w0 = Some ?w1"
    using n assms(5) by (cases r) (simp_all add: settle_def w0 del: calls.simps)
  have "pending (inst ?w1) = Some ?n"
    by simp
  from calls_join[OF this, of late]
  have w1': "?w1' = ?w1\<lparr>waiting := map (\<lambda>a. (a, ?n)) ?cs\<rparr>"
    by (simp add: w0 del: calls.simps)
  have o: "order \<noteq> []"
    using assms(7) by auto
  have 2: "resumes order ?w1' =
     Some (?w1'\<lparr>inst := (inst ?w1')\<lparr>pending := None\<rparr>,
              waiting := map (\<lambda>a. (a, ?n)) (filter (\<lambda>a. a \<notin> set order) ?cs),
              received := received ?w1' @ map (\<lambda>a. (a, r)) order\<rparr>)"
    using assms(6,7) o unfolding w1' by (intro resumes_all) (simp_all add: w0 del: calls.simps)
  let ?w2 = "?w1'\<lparr>inst := (inst ?w1')\<lparr>pending := None\<rparr>,
              waiting := map (\<lambda>a. (a, ?n)) (filter (\<lambda>a. a \<notin> set order) ?cs),
              received := received ?w1' @ map (\<lambda>a. (a, r)) order\<rparr>"
  have f: "filter (\<lambda>a. a \<notin> set order) ?cs = []"
    using assms(7) by (simp only: filter_empty_conv) simp
  have s: "s\<lparr>pending := None\<rparr> = s"
    using p by simp
  have 3: "promises ?w2 = promises w @ [Settled r]" "effects ?w2 = effects w @ tr"
     "received ?w2 = received w @ map (\<lambda>a. (a, r)) order" "inst ?w2 = s" "files ?w2 = d"
     "pending (inst ?w2) = None" "waiting ?w2 = []"
    using f s p unfolding w1' by (simp_all add: w0 del: calls.simps)
  have 4: "promises (invoke_call c' context' ?w2) = promises ?w2 @ [InFlight context']"
    using 3(6) by (simp add: invoke_call_def del: calls.simps)
  have 5: "run (entering ((c, context) # early) @ [Settle ?n] @ entering late @ map Resume order) w
        = Some ?w2"
    using 1 2 by (simp add: run_append run_entering run_resumes del: calls.simps)
  from 5 3 4 newInvoke_counts[OF assms(4)] show ?thesis
    by blast
qed

lemma run_closed_pending:
  "newInvoke env_closed (constructor\<lparr>pending := Some 0\<rparr>, no_files) =
     (Threw loginFailed, constructor\<lparr>pending := Some 0, store := Some 0\<rparr>, no_files,
      [HasItem ''expiresAt'', InteractiveLogin, LogError WindowClosed])"
  by (simp add: newInvoke_pending run_closed)

lemma two_callers_window_closed:
  "run (entering [(7, env_closed), (8, env_closed)] @ [Settle 0] @ map Resume [7, 8]) idle =
     Some \<lparr>inst = constructor\<lparr>pending := None, store := Some 0\<rparr>, files = no_files,
            promises = [Settled (Threw loginFailed)], waiting = [],
            received = [(7, Threw loginFailed), (8, Threw loginFailed)],
            effects = [HasItem ''expiresAt'', InteractiveLogin, LogError WindowClosed]\<rparr>"
proof -
  have p: "pending constructor = None"
    by (simp add: constructor_def)
  show ?thesis
    by (simp add: entering_def idle_def invoke_call_def p settle_def run_closed_pending
          resume_def)
qed

lemma late_resume_clears_newer_marker:
  "run [Call 7 env_closed, Settle 0, Call 8 env_closed, Resume 7,
        Call 9 (env_login ''tok1''), Resume 8, Call 10 (env_login ''tok2'')] idle =
     Some \<lparr>inst = constructor\<lparr>pending := Some 2, store := Some 0\<rparr>, files = no_files,
            promises = [Settled (Threw loginFailed), InFlight (env_login ''tok1''),
                        InFlight (env_login ''tok2'')],
            waiting = [(9, 1), (10, 2)],
            received = [(7, Threw loginFailed), (8, Threw loginFailed)],
            effects = [HasItem ''expiresAt'', InteractiveLogin, LogError WindowClosed]\<rparr>"
proof -
  have p: "pending constructor = None"
    by (simp add: constructor_def)
  show ?thesis
    by (simp add: idle_def invoke_call_def p settle_def run_closed_pending resume_def)
qed

text \<open>
  C1 as stated fails. Two callers share a renewal in which the user closes the login
  window: both get \<^verbatim>\<open>Error('Riot login failed')\<close>, and the run made no entitlement lookup
  and no user lookup, so the Credential Deriver was not invoked. And a caller (8) that
  entered after the promise had settled, and goes on after caller 9 has started a new
  renewal, clears the marker of that renewal: caller 10 starts \<^verbatim>\<open>_newInvoke\<close> again, and
  two renewals are in flight, with callers 9 and 10 waiting for different ones.
\<close>

theorem deriver_skipped_and_marker_cleared_late:
  "renewal_due env_closed (inst idle, files idle)
   \<and> map_option effects
        (run (entering [(7, env_closed), (8, env_closed)] @ [Settle 0] @ map Resume [7, 8]) idle) =
       Some [HasItem ''expiresAt'', InteractiveLogin, LogError WindowClosed]
   \<and> filter is_entitlement_lookup [HasItem ''expiresAt'', InteractiveLogin, LogError WindowClosed] = []
   \<and> filter is_userinfo_lookup [HasItem ''expiresAt'', InteractiveLogin, LogError WindowClosed] = []
   \<and> map_option received
        (run (entering [(7, env_closed), (8, env_closed)] @ [Settle 0] @ map Resume [7, 8]) idle) =
       Some [(7, Threw loginFailed), (8, Threw loginFailed)]
   \<and> map_option promises
        (run [Call 7 env_closed, Settle 0, Call 8 env_closed, Resume 7,
              Call 9 (env_login ''tok1''), Resume 8, Call 10 (env_login ''tok2'')] idle) =
       Some [Settled (Threw loginFailed), InFlight (env_login ''tok1''),
             InFlight (env_login ''tok2'')]
   \<and> map_option waiting
        (run [Call 7 env_closed, Settle 0, Call 8 env_closed, Resume 7,
              Call 9 (env_login ''tok1''), Resume 8, Call 10 (env_login ''tok2'')] idle) =
       Some [(9, 1), (10, 2)]"
  unfolding two_callers_window_closed late_resume_clears_newer_marker
  using due_closed by (simp add: idle_def)

text \<open>
  The amended C1 at three callers of the first call: 5 starts it, 6 enters while it is
  in flight, 7 after it has settled, and they go on in the order 7, 5, 6.
\<close>

theorem overlapping_calls_share_one_run_witness:
  "pending (inst idle) = None \<and> waiting idle = []
   \<and> distinct (map fst ((5::nat, env_login ''tok1'') # [(6, env_closed)] @ [(7, env_lookup_down)]))
   \<and> distinct [7, 5, 6::nat]
   \<and> set [7, 5, 6::nat] =
       set (map fst ((5::nat, env_login ''tok1'') # [(6, env_closed)] @ [(7, env_lookup_down)]))
   \<and> renewal_due (env_login ''tok1'') (inst idle, files idle)
   \<and> (\<exists>w2.
         run (entering ((5, env_login ''tok1'') # [(6, env_closed)])
              @ [Settle (length (promises idle))]
              @ entering [(7, env_lookup_down)] @ map Resume [7, 5, 6]) idle = Some w2
       \<and> promises w2 = [Settled (Returned \<lparr>s_entitlement = JStr ''ent-tok1'',
             s_token = JStr ''tok1'', s_puuid = JStr ''sub-tok1''\<rparr>)]
       \<and> length (filter (\<lambda>x. x = InteractiveLogin) (effects w2)) \<le> 1
       \<and> filter is_entitlement_lookup (effects w2) \<noteq> []
       \<and> received w2 = map (\<lambda>a. (a, Returned \<lparr>s_entitlement = JStr ''ent-tok1'',
             s_token = JStr ''tok1'', s_puuid = JStr ''sub-tok1''\<rparr>)) [7, 5, 6::nat]
       \<and> inst w2 = signed_in \<and> files w2 = saved
       \<and> pending (inst w2) = None \<and> waiting w2 = [])"
proof -
  have h1: "pending (inst idle) = None" and h2: "waiting idle = []"
    by (simp_all add: idle_def constructor_def)
  have h3: "distinct (map fst ((5::nat, env_login ''tok1'') # [(6, env_closed)] @ [(7, env_lookup_down)]))"
    by simp
  have h4: "newInvoke (env_login ''tok1'') (inst idle, files idle) =
     (Returned \<lparr>s_entitlement = JStr ''ent-tok1'', s_token = JStr ''tok1'',
                s_puuid = JStr ''sub-tok1''\<rparr>,
      signed_in, saved,
      [HasItem ''expiresAt'', InteractiveLogin, EntitlementLookup (JStr ''tok1''),
       UserinfoLookup (JStr ''tok1''),
       SetItem ''expiresAt'' (JNum (Finite 1700003309000)), SetItem ''cookies'' (JJar []),
       SetItem ''token'' (JStr ''tok1''), SetItem ''entitlement'' (JStr ''ent-tok1''),
       SetItem ''puuid'' (JStr ''sub-tok1'')])"
    using run_login by (simp add: idle_def)
  have h5: "Returned \<lparr>s_entitlement = JStr ''ent-tok1'', s_token = JStr ''tok1'',
                s_puuid = JStr ''sub-tok1''\<rparr> \<noteq> Unsettled"
    by simp
  have h6: "distinct [7, 5, 6::nat]" by simp
  have h7: "set [7, 5, 6::nat] =
       set (map fst ((5::nat, env_login ''tok1'') # [(6, env_closed)] @ [(7, env_lookup_down)]))"
    by auto
  have d: "renewal_due (env_login ''tok1'') (inst idle, files idle)"
    using due_login by (simp add: idle_def)
  have e: "effects idle = []" "received idle = []" "promises idle = []"
    by (simp_all add: idle_def)
  from overlapping_calls_share_one_run[OF h1 h2 h3 h4 h5 h6 h7]
  obtain w2 where
    "run (entering ((5, env_login ''tok1'') # [(6, env_closed)])
              @ [Settle (length (promises idle))]
              @ entering [(7, env_lookup_down)] @ map Resume [7, 5, 6]) idle = Some w2"
    "promises w2 = promises idle @ [Settled (Returned \<lparr>s_entitlement = JStr ''ent-tok1'',
             s_token = JStr ''tok1'', s_puuid = JStr ''sub-tok1''\<rparr>)]"
    "effects w2 = effects idle @ [HasItem ''expiresAt'', InteractiveLogin, EntitlementLookup (JStr ''tok1''),
       UserinfoLookup (JStr ''tok1''),
       SetItem ''expiresAt'' (JNum (Finite 1700003309000)), SetItem ''cookies'' (JJar []),
       SetItem ''token'' (JStr ''tok1''), SetItem ''entitlement'' (JStr ''ent-tok1''),
       SetItem ''puuid'' (JStr ''sub-tok1'')]"
    "received w2 = received idle @ map (\<lambda>a. (a, Returned \<lparr>s_entitlement = JStr ''ent-tok1'',
             s_token = JStr ''tok1'', s_puuid = JStr ''sub-tok1''\<rparr>)) [7, 5, 6::nat]"
    "inst w2 = signed_in" "files w2 = saved" "pending (inst w2) = None" "waiting w2 = []"
    by blast
  with e have "run (entering ((5, env_login ''tok1'') # [(6, env_closed)])
              @ [Settle (length (promises idle))]
              @ entering [(7, env_lookup_down)] @ map Resume [7, 5, 6]) idle = Some w2
       \<and> promises w2 = [Settled (Returned \<lparr>s_entitlement = JStr ''ent-tok1'',
             s_token = JStr ''tok1'', s_puuid = JStr ''sub-tok1''\<rparr>)]
       \<and> length (filter (\<lambda>x. x = InteractiveLogin) (effects w2)) \<le> 1
       \<and> filter is_entitlement_lookup (effects w2) \<noteq> []
       \<and> received w2 = map (\<lambda>a. (a, Returned \<lparr>s_entitlement = JStr ''ent-tok1'',
             s_token = JStr ''tok1'', s_puuid = JStr ''sub-tok1''\<rparr>)) [7, 5, 6::nat]
       \<and> inst w2 = signed_in \<and> files w2 = saved
       \<and> pending (inst w2) = None \<and> waiting w2 = []"
    by simp
  with h1 h2 h3 h6 h7 d show ?thesis
    by blast
qed

end
